theory Spec2Isabelle
  imports Main "HOL-Library.Word" "HOL-Library.Sublist"
begin

unbundle bit_operations_syntax

section \<open>Gowin FPGA programming over JTAG (src/gowin.cpp)\<close>

text \<open>
  A shallow embedding of \<^verbatim>\<open>src/gowin.cpp\<close>. The JTAG transport, the bitstream
  parsers and the progress bar are collaborators of the file: the transport is modelled
  as a log of the calls made on it together with the bytes the device answers, the
  parsed image as a record of what the parser hands over, and the progress bar is left
  out. The host is taken to be little-endian with a 64-bit \<^verbatim>\<open>long\<close> (LP64),
  so \<^verbatim>\<open>htole32\<close> and \<^verbatim>\<open>le32toh\<close> are the identity on the value and fix
  the byte order in memory.
\<close>

type_synonym u8 = "8 word"
type_synonym u16 = "16 word"
type_synonym u32 = "32 word"

subsection \<open>Command and status constants\<close>

definition NOOP :: u8 where "NOOP = 0x02"
definition ERASE_SRAM :: u8 where "ERASE_SRAM = 0x05"
definition READ_SRAM :: u8 where "READ_SRAM = 0x03"
definition XFER_DONE :: u8 where "XFER_DONE = 0x09"
definition READ_IDCODE :: u8 where "READ_IDCODE = 0x11"
definition INIT_ADDR :: u8 where "INIT_ADDR = 0x12"
definition READ_USERCODE :: u8 where "READ_USERCODE = 0x13"
definition CONFIG_ENABLE :: u8 where "CONFIG_ENABLE = 0x15"
definition XFER_WRITE :: u8 where "XFER_WRITE = 0x17"
definition CONFIG_DISABLE :: u8 where "CONFIG_DISABLE = 0x3A"
definition RELOAD :: u8 where "RELOAD = 0x3C"
definition STATUS_REGISTER :: u8 where "STATUS_REGISTER = 0x41"
definition EF_PROGRAM :: u8 where "EF_PROGRAM = 0x71"
definition EFLASH_ERASE :: u8 where "EFLASH_ERASE = 0x75"
definition SWITCH_TO_MCU_JTAG :: u8 where "SWITCH_TO_MCU_JTAG = 0x7a"

definition STATUS_MEMORY_ERASE :: u32 where "STATUS_MEMORY_ERASE = push_bit 5 1"
definition STATUS_SYSTEM_EDIT_MODE :: u32 where "STATUS_SYSTEM_EDIT_MODE = push_bit 7 1"
definition STATUS_GOWIN_VLD :: u32 where "STATUS_GOWIN_VLD = push_bit 12 1"
definition STATUS_DONE_FINAL :: u32 where "STATUS_DONE_FINAL = push_bit 13 1"
definition STATUS_POR :: u32 where "STATUS_POR = push_bit 16 1"

definition BSCAN_SPI_SCK :: u8 where "BSCAN_SPI_SCK = push_bit 1 1"
definition BSCAN_SPI_CS :: u8 where "BSCAN_SPI_CS = push_bit 3 1"
definition BSCAN_SPI_DI :: u8 where "BSCAN_SPI_DI = push_bit 5 1"
definition BSCAN_SPI_DO :: u8 where "BSCAN_SPI_DO = push_bit 7 1"
definition BSCAN_SPI_MSK :: u8 where "BSCAN_SPI_MSK = push_bit 6 1"
definition BSCAN_GW1NSR_4C_SPI_SCK :: u8 where "BSCAN_GW1NSR_4C_SPI_SCK = push_bit 7 1"
definition BSCAN_GW1NSR_4C_SPI_CS :: u8 where "BSCAN_GW1NSR_4C_SPI_CS = push_bit 5 1"
definition BSCAN_GW1NSR_4C_SPI_DI :: u8 where "BSCAN_GW1NSR_4C_SPI_DI = push_bit 3 1"
definition BSCAN_GW1NSR_4C_SPI_DO :: u8 where "BSCAN_GW1NSR_4C_SPI_DO = push_bit 1 1"
definition BSCAN_GW1NSR_4C_SPI_MSK :: u8 where "BSCAN_GW1NSR_4C_SPI_MSK = push_bit 0 1"

text \<open>\<^verbatim>\<open>ETIME\<close> comes from \<^verbatim>\<open>errno.h\<close>; 62 is its value on Linux.\<close>

definition ETIME :: int where "ETIME = 62"

named_theorems gowin_consts \<open>the numeric constants of gowin.cpp\<close>

declare NOOP_def [gowin_consts] ERASE_SRAM_def [gowin_consts] READ_SRAM_def [gowin_consts]
  XFER_DONE_def [gowin_consts] READ_IDCODE_def [gowin_consts] INIT_ADDR_def [gowin_consts]
  READ_USERCODE_def [gowin_consts] CONFIG_ENABLE_def [gowin_consts]
  XFER_WRITE_def [gowin_consts] CONFIG_DISABLE_def [gowin_consts] RELOAD_def [gowin_consts]
  STATUS_REGISTER_def [gowin_consts] EF_PROGRAM_def [gowin_consts]
  EFLASH_ERASE_def [gowin_consts] SWITCH_TO_MCU_JTAG_def [gowin_consts]
  STATUS_MEMORY_ERASE_def [gowin_consts] STATUS_SYSTEM_EDIT_MODE_def [gowin_consts]
  STATUS_GOWIN_VLD_def [gowin_consts] STATUS_DONE_FINAL_def [gowin_consts]
  STATUS_POR_def [gowin_consts] BSCAN_SPI_SCK_def [gowin_consts]
  BSCAN_SPI_CS_def [gowin_consts] BSCAN_SPI_DI_def [gowin_consts]
  BSCAN_SPI_DO_def [gowin_consts] BSCAN_SPI_MSK_def [gowin_consts]
  BSCAN_GW1NSR_4C_SPI_SCK_def [gowin_consts] BSCAN_GW1NSR_4C_SPI_CS_def [gowin_consts]
  BSCAN_GW1NSR_4C_SPI_DI_def [gowin_consts] BSCAN_GW1NSR_4C_SPI_DO_def [gowin_consts]
  BSCAN_GW1NSR_4C_SPI_MSK_def [gowin_consts] ETIME_def [gowin_consts]

subsection \<open>The JTAG transport\<close>

text \<open>
  The calls gowin.cpp makes on \<^verbatim>\<open>Jtag\<close>, and the messages it prints, in the
  order they happen. \<open>ShiftDR tx rd len next\<close> is
  \<^verbatim>\<open>shiftDR(tx, rx, len, next)\<close>: the bytes handed over, whether a receive buffer
  was given, the length in bits and the end state (\<open>None\<close> when the call leaves the
  transport's default).
\<close>

datatype tapState = TEST_LOGIC_RESET | RUN_TEST_IDLE | SHIFT_DR | EXIT2_DR

datatype jtag_op =
    ShiftIR u8
  | ShiftDR "u8 list" bool int "tapState option"
  | ToggleClk nat
  | SetState tapState
  | SetClkFreq nat
  | Flush
  | Usleep nat
  | PrintInfo string
  | PrintError string
  | PrintSuccess string
  | PrintWarn string
  | DisplayReadReg string u32
  | Printf string "u32 list"
  | CrcFailMessage u32 u16

text \<open>
  The state of the transport: the log, the number of data-register shifts that
  captured an answer so far, the clock frequency, the idcode the transport found on the
  chain, and the device: \<open>tdo jt n i\<close> is byte \<open>i\<close> of what the device answers to
  the \<open>n\<close>-th capturing shift.
\<close>

record jtag =
  ops :: "jtag_op list"
  nrd :: nat
  clkfreq :: nat
  device_id :: u32
  tdo :: "nat \<Rightarrow> nat \<Rightarrow> u8"

definition emit :: "jtag_op \<Rightarrow> jtag \<Rightarrow> jtag" where
  "emit e jt = jt\<lparr>ops := ops jt @ [e]\<rparr>"

definition shiftDR_wr :: "u8 list \<Rightarrow> int \<Rightarrow> tapState option \<Rightarrow> jtag \<Rightarrow> jtag" where
  "shiftDR_wr tx len next jt = emit (ShiftDR tx False len next) jt"

definition shiftDR_rd :: "u8 list \<Rightarrow> int \<Rightarrow> tapState option \<Rightarrow> jtag \<Rightarrow> (nat \<Rightarrow> u8) \<times> jtag" where
  "shiftDR_rd tx len next jt =
     (tdo jt (nrd jt), (emit (ShiftDR tx True len next) jt)\<lparr>nrd := Suc (nrd jt)\<rparr>)"

definition setClkFreq :: "nat \<Rightarrow> jtag \<Rightarrow> jtag" where
  "setClkFreq hz jt = (emit (SetClkFreq hz) jt)\<lparr>clkfreq := hz\<rparr>"

subsection \<open>Register and command layer\<close>

definition send_command :: "u8 \<Rightarrow> jtag \<Rightarrow> jtag" where
  "send_command cmd jt = emit (ToggleClk 5) (emit (ShiftIR cmd) jt)"

definition le32 :: "u8 \<Rightarrow> u8 \<Rightarrow> u8 \<Rightarrow> u8 \<Rightarrow> u32" where
  "le32 b0 b1 b2 b3 =
     ucast b0 OR push_bit 8 (ucast b1) OR push_bit 16 (ucast b2) OR push_bit 24 (ucast b3)"

definition bytes_le32 :: "u32 \<Rightarrow> u8 list" where
  "bytes_le32 w = [ucast w, ucast (drop_bit 8 w), ucast (drop_bit 16 w), ucast (drop_bit 24 w)]"

definition readReg32 :: "u8 \<Rightarrow> jtag \<Rightarrow> u32 \<times> jtag" where
  "readReg32 cmd jt =
     (let jt1 = send_command cmd jt;
          (reg, jt2) = shiftDR_rd (bytes_le32 0xffffffff) 32 None jt1
      in (le32 (reg 0) (reg 1) (reg 2) (reg 3), jt2))"

definition readStatusReg :: "jtag \<Rightarrow> u32 \<times> jtag" where
  "readStatusReg jt = readReg32 STATUS_REGISTER jt"

definition readUserCode :: "jtag \<Rightarrow> u32 \<times> jtag" where
  "readUserCode jt = readReg32 READ_USERCODE jt"

text \<open>The 32-bit register value the device answers to the \<open>n\<close>-th capturing shift.\<close>

definition status_at :: "jtag \<Rightarrow> nat \<Rightarrow> u32" where
  "status_at jt n = le32 (tdo jt n 0) (tdo jt n 1) (tdo jt n 2) (tdo jt n 3)"

definition sendClkUs :: "nat \<Rightarrow> jtag \<Rightarrow> jtag" where
  "sendClkUs us jt = emit (ToggleClk ((clkfreq jt * us) div 1000000)) jt"

subsection \<open>The session\<close>

datatype prog_mode = FLASH_MODE | MEM_MODE

text \<open>
  What the parser hands over of an image: the payload, its length in bits, the header
  fields (\<^verbatim>\<open>getHeaderVal\<close> throws for a missing key) and the 16-bit checksum.
\<close>

record image =
  getData :: "u8 list"
  getLength :: int
  header :: "(string \<times> string) list"
  checksum :: u16

record gowin =
  is_gw1n1 :: bool
  is_gw2a :: bool
  is_gw1n4 :: bool
  is_gw5a :: bool
  external_flash :: bool
  skip_checksum :: bool
  spi_sck :: u8
  spi_cs :: u8
  spi_di :: u8
  spi_do :: u8
  spi_msk :: u8
  mode :: prog_mode
  verbose :: bool
  verify :: bool
  fs :: "image option"
  mcufw :: "image option"

subsection \<open>Arrays with bounds\<close>

text \<open>
  An access beyond an array is undefined behaviour in C++; the model makes it a value:
  the array's name, the index and the array's size.
\<close>

datatype fault = OutOfBounds string nat nat

definition arr_read :: "string \<Rightarrow> u8 list \<Rightarrow> nat \<Rightarrow> fault + u8" where
  "arr_read name a i = (if i < length a then Inr (a ! i) else Inl (OutOfBounds name i (length a)))"

definition arr_write :: "string \<Rightarrow> u8 list \<Rightarrow> nat \<Rightarrow> u8 \<Rightarrow> fault + u8 list" where
  "arr_write name a i v =
     (if i < length a then Inr (a[i := v]) else Inl (OutOfBounds name i (length a)))"

text \<open>
  Modelled from the spec: \<^verbatim>\<open>FsParser::reverseByte\<close> is not under src/; the spec
  says it reverses a byte's bit order.
\<close>

definition reverseByte :: "u8 \<Rightarrow> u8" where
  "reverseByte b = word_reverse b"

subsection \<open>spi_put, shift-register-assisted path (GW2A)\<close>

text \<open>
  \<^verbatim>\<open>for (i = 0; i < len; i++) jtx[i] = reverseByte(tx[i]);\<close> The right-hand side
  is evaluated first.
\<close>

function gw2a_fill_jtx :: "u8 list \<Rightarrow> nat \<Rightarrow> nat \<Rightarrow> u8 list \<Rightarrow> fault + u8 list" where
  "gw2a_fill_jtx tx len i jtx =
     (if i < len then
        (case arr_read ''tx'' tx i of
           Inl e \<Rightarrow> Inl e
         | Inr v \<Rightarrow>
             (case arr_write ''jtx'' jtx i (reverseByte v) of
                Inl e \<Rightarrow> Inl e
              | Inr jtx' \<Rightarrow> gw2a_fill_jtx tx len (i + 1) jtx'))
      else Inr jtx)"
  by pat_completeness auto
termination
  by (relation "measure (\<lambda>(tx, len, i, jtx). len - i)") auto

text \<open>
  \<^verbatim>\<open>for (i = 0; i < len; i++) rx[i] = reverseByte(jrx[i]>>1) | (jrx[i+1]&0x01);\<close>
  The caller's \<^verbatim>\<open>rx\<close> is collected as the list of bytes stored into it.
\<close>

function gw2a_read_jrx :: "u8 list \<Rightarrow> nat \<Rightarrow> nat \<Rightarrow> u8 list \<Rightarrow> fault + u8 list" where
  "gw2a_read_jrx jrx len i rx =
     (if i < len then
        (case arr_read ''jrx'' jrx i of
           Inl e \<Rightarrow> Inl e
         | Inr a \<Rightarrow>
             (case arr_read ''jrx'' jrx (i + 1) of
                Inl e \<Rightarrow> Inl e
              | Inr b \<Rightarrow>
                  gw2a_read_jrx jrx len (i + 1)
                    (rx @ [reverseByte (drop_bit 1 a) OR (b AND 0x01)])))
      else Inr rx)"
  by pat_completeness auto
termination
  by (relation "measure (\<lambda>(jrx, len, i, rx). len - i)") auto

definition nbytes :: "int \<Rightarrow> nat" where
  "nbytes bits = nat ((bits + 7) div 8)"

text \<open>
  The GW2A branch of \<^verbatim>\<open>spi_put(tx, rx, len)\<close>. \<open>tx\<close> is \<open>None\<close> for a null
  pointer, \<open>rx\<close> says whether a receive buffer was given, \<open>stack\<close> is what the two
  variable-length arrays hold before they are written. The arrays are allocated with
  the length the caller passed; \<^verbatim>\<open>len++\<close> comes after. The transport reads
  \<open>nbytes\<close> bytes of \<^verbatim>\<open>jtx\<close> and stores as many into \<^verbatim>\<open>jrx\<close>.
\<close>

definition spi_put_gw2a ::
  "(nat \<Rightarrow> u8) \<Rightarrow> u8 list option \<Rightarrow> bool \<Rightarrow> u32 \<Rightarrow> jtag \<Rightarrow> fault + (int \<times> u8 list \<times> jtag)" where
  "spi_put_gw2a stack tx rx len0 jt =
     (let jtx0 = map stack [0..<unat len0];
          jrx0 = map stack [unat len0..<2 * unat len0];
          len = (if rx then len0 + 1 else len0);
          filled = (case tx of None \<Rightarrow> Inr jtx0 | Some t \<Rightarrow> gw2a_fill_jtx t (unat len) 0 jtx0)
      in case filled of
           Inl e \<Rightarrow> Inl e
         | Inr jtx \<Rightarrow>
             (let jt1 = send_command 0x16 jt;
                  jt2 = emit (SetState EXIT2_DR) jt1;
                  bits = sint (8 * len);
                  n = nbytes bits
              in if length jtx < n then Inl (OutOfBounds ''jtx'' (length jtx) (length jtx))
                 else if rx then
                   (if length jrx0 < n then Inl (OutOfBounds ''jrx'' (length jrx0) (length jrx0))
                    else
                      (let (cap, jt3) = shiftDR_rd (take n jtx) bits None jt2;
                           jrx = map cap [0..<n] @ drop n jrx0
                       in case gw2a_read_jrx jrx (unat len) 0 [] of
                            Inl e \<Rightarrow> Inl e
                          | Inr out \<Rightarrow> Inr (0, out, jt3)))
                 else Inr (0, [], shiftDR_wr (take n jtx) bits None jt2)))"

subsection \<open>Status poller and configuration gate\<close>

text \<open>
  \<^verbatim>\<open>pollFlag\<close>: the counter is the C \<^verbatim>\<open>int timeout\<close>, compared with
  \<^verbatim>\<open>==\<close>; it starts at 0.
\<close>

function pollFlag_loop :: "gowin \<Rightarrow> u32 \<Rightarrow> u32 \<Rightarrow> u32 \<Rightarrow> jtag \<Rightarrow> bool \<times> jtag" where
  "pollFlag_loop s msk val timeout jt =
     (let (status, jt1) = readStatusReg jt;
          jt2 = (if verbose s then emit (Printf ''pollFlag: %x (%x)'' [status, status AND msk]) jt1
                 else jt1)
      in if timeout = 100000000 then (False, emit (PrintError ''timeout'') jt2)
         else if (status AND msk) \<noteq> val then pollFlag_loop s msk val (timeout + 1) jt2
         else (True, jt2))"
  by pat_completeness auto
termination
proof (relation "measure (\<lambda>(s, msk, val, timeout, jt). unat (100000000 - timeout))")
  show "wf (measure (\<lambda>(s, msk, val, timeout, jt). unat (100000000 - timeout)))"
    by simp
next
  fix s :: gowin and msk val timeout :: u32 and jt :: jtag
    and x :: "u32 \<times> jtag" and status :: u32 and jt1 jt2 :: jtag
  assume ne: "timeout \<noteq> 100000000"
  then have nz: "100000000 - timeout \<noteq> 0" by simp
  have step: "\<And>x :: u32. x \<noteq> 0 \<Longrightarrow> unat (x - 1) < unat x"
    by (simp add: unat_minus_one unat_gt_0)
  have eq: "100000000 - (timeout + 1) = (100000000 - timeout) - 1" by simp
  show "((s, msk, val, timeout + 1, jt2), (s, msk, val, timeout, jt))
        \<in> measure (\<lambda>(s, msk, val, timeout, jt). unat (100000000 - timeout))"
    using step [OF nz] by (simp only: in_measure prod.case eq)
qed

declare pollFlag_loop.simps [simp del]

text \<open>The transport after one pass of the loop's body: a status read and its message.\<close>

definition poll_read :: "gowin \<Rightarrow> u32 \<Rightarrow> jtag \<Rightarrow> jtag" where
  "poll_read s msk jt =
     (let (status, jt1) = readStatusReg jt
      in if verbose s then emit (Printf ''pollFlag: %x (%x)'' [status, status AND msk]) jt1
         else jt1)"

definition pollFlag :: "gowin \<Rightarrow> u32 \<Rightarrow> u32 \<Rightarrow> jtag \<Rightarrow> bool \<times> jtag" where
  "pollFlag s msk val jt = pollFlag_loop s msk val 0 jt"

definition enableCfg :: "gowin \<Rightarrow> jtag \<Rightarrow> bool \<times> jtag" where
  "enableCfg s jt =
     pollFlag s STATUS_SYSTEM_EDIT_MODE STATUS_SYSTEM_EDIT_MODE (send_command CONFIG_ENABLE jt)"

definition disableCfg :: "gowin \<Rightarrow> jtag \<Rightarrow> bool \<times> jtag" where
  "disableCfg s jt =
     pollFlag s STATUS_SYSTEM_EDIT_MODE 0 (send_command NOOP (send_command CONFIG_DISABLE jt))"

text \<open>\<^verbatim>\<open>if (_verbose) displayReadReg(prefix, readStatusReg());\<close>\<close>

definition verbose_status :: "gowin \<Rightarrow> string \<Rightarrow> jtag \<Rightarrow> jtag" where
  "verbose_status s pfx jt =
     (if verbose s then (let (reg, jt1) = readStatusReg jt in emit (DisplayReadReg pfx reg) jt1)
      else jt)"

subsection \<open>SRAM programmer\<close>

definition eraseSRAM :: "gowin \<Rightarrow> jtag \<Rightarrow> bool \<times> jtag" where
  "eraseSRAM s jt =
     (let jt0 = verbose_status s ''before erase sram'' (emit (PrintInfo ''Erase SRAM '') jt);
          (en, jt1) = enableCfg s jt0
      in if \<not> en then (False, emit (PrintError ''FAIL'') jt1)
         else
           (let jt2 = send_command NOOP (send_command ERASE_SRAM jt1);
                (erased, jt3) = pollFlag s STATUS_MEMORY_ERASE STATUS_MEMORY_ERASE jt2
            in if \<not> erased then (False, emit (PrintError ''FAIL'') jt3)
               else
                 (let jt4 = verbose_status s ''after erase sram'' jt3;
                      jt5 = send_command NOOP (send_command XFER_DONE jt4);
                      (dis, jt6) = disableCfg s jt5
                  in if \<not> dis then (False, emit (PrintError ''FAIL'') jt6)
                     else
                       (let jt7 = verbose_status s ''after erase sram'' jt6;
                            (st, jt8) = readStatusReg jt7
                        in if st AND STATUS_DONE_FINAL \<noteq> 0
                           then (False, emit (PrintError ''FAIL'') jt8)
                           else (True, emit (PrintSuccess ''DONE'') jt8)))))"

text \<open>
  The streaming loop of \<^verbatim>\<open>writeSRAM\<close>: \<open>remains\<close> is the C \<^verbatim>\<open>int\<close>,
  \<open>ptr\<close> the offset of \<^verbatim>\<open>ptr\<close> into the image in bytes. The transport is handed
  the bytes of the image from \<open>ptr\<close> on.
\<close>

definition pstep :: int where "pstep = 524288"

function writeSRAM_loop :: "u8 list \<Rightarrow> int \<Rightarrow> int \<Rightarrow> jtag \<Rightarrow> jtag" where
  "writeSRAM_loop data remains ptr jt =
     (if remains \<noteq> 0 then
        (let (chunk, next) =
               (if remains < pstep then (remains, RUN_TEST_IDLE) else (pstep, SHIFT_DR));
             jt1 = shiftDR_wr (take (nbytes chunk) (drop (nat ptr) data)) chunk (Some next) jt
         in writeSRAM_loop data (remains - chunk) (ptr + chunk div 8) jt1)
      else jt)"
  by pat_completeness auto
termination
  by (relation "measure (\<lambda>(data, remains, ptr, jt). nat \<bar>remains\<bar>)")
    (auto simp: pstep_def split: if_splits)

declare writeSRAM_loop.simps [simp del]

definition writeSRAM :: "gowin \<Rightarrow> image \<Rightarrow> jtag \<Rightarrow> bool \<times> jtag" where
  "writeSRAM s img jt =
     (let jt0 = verbose_status s ''before write sram'' (emit (PrintInfo ''Load SRAM '') jt);
          jt1 = send_command XFER_WRITE (send_command INIT_ADDR (send_command CONFIG_ENABLE jt0));
          jt2 = writeSRAM_loop (getData img) (getLength img) 0 jt1;
          jt3 = send_command 0x0a jt2;
          jt4 = shiftDR_wr (bytes_le32 (ucast (checksum img))) 32 None jt3;
          jt5 = send_command NOOP (send_command CONFIG_DISABLE (send_command 0x08 jt4));
          jt6 = verbose_status s ''after write sram'' jt5;
          (st, jt7) = readStatusReg jt6
      in if st AND STATUS_DONE_FINAL \<noteq> 0 then (True, emit (PrintSuccess ''DONE'') jt7)
         else (False, emit (PrintSuccess ''FAIL'') jt7))"

subsection \<open>Internal-flash programmer\<close>

text \<open>
  The inner loop of \<^verbatim>\<open>eraseFLASH\<close>:
  \<^verbatim>\<open>for (int i = 0; i < nb_iter; ++i) { set_state(SHIFT_DR); toggleClk(32); set_state(RUN_TEST_IDLE); }\<close>
\<close>

function erase_pulses :: "int \<Rightarrow> int \<Rightarrow> jtag \<Rightarrow> jtag" where
  "erase_pulses i nb_iter jt =
     (if i < nb_iter then
        erase_pulses (i + 1) nb_iter
          (emit (SetState RUN_TEST_IDLE) (emit (ToggleClk 32) (emit (SetState SHIFT_DR) jt)))
      else jt)"
  by pat_completeness auto
termination
  by (relation "measure (\<lambda>(i, nb_iter, jt). nat (nb_iter - i))") auto

declare erase_pulses.simps [simp del]

text \<open>
  One pass through the body of the retry loop of \<^verbatim>\<open>eraseFLASH\<close>. \<open>None\<close> is
  \<^verbatim>\<open>return false\<close> from inside the loop; otherwise the status read at the end of
  the pass.
\<close>

definition erase_attempt :: "gowin \<Rightarrow> jtag \<Rightarrow> u32 option \<times> jtag" where
  "erase_attempt s jt =
     (let jt0 = verbose_status s ''before erase flash'' jt;
          (en, jt1) = enableCfg s jt0
      in if \<not> en then (None, emit (PrintError ''FAIL'') jt1)
         else
           (let jt2 = emit (SetState RUN_TEST_IDLE) (send_command EFLASH_ERASE jt1);
                nb_iter = (if is_gw1n1 s then 65 else 1);
                jt3 = erase_pulses 0 nb_iter jt2;
                jt4 = sendClkUs (150 * 1000) jt3;
                (dis, jt5) = disableCfg s jt4
            in if \<not> dis then (None, emit (PrintError ''FAIL'') jt5)
               else
                 (let jt6 = emit (Usleep (500 * 1000)) (emit Flush jt5);
                      (state, jt7) = readStatusReg jt6;
                      jt8 = (if verbose s then emit (DisplayReadReg ''after erase flash'' state) jt7
                             else jt7)
                  in (Some state, jt8))))"

text \<open>
  \<^verbatim>\<open>for (unsigned i = 0; i < 100; ++i)\<close>. The result is \<open>False\<close> when the body
  returned false, \<open>True\<close> when the loop was left by \<^verbatim>\<open>break\<close> or ran out.
\<close>

function eraseFLASH_loop :: "gowin \<Rightarrow> nat \<Rightarrow> jtag \<Rightarrow> bool \<times> jtag" where
  "eraseFLASH_loop s i jt =
     (if i < 100 then
        (case erase_attempt s jt of
           (None, jt') \<Rightarrow> (False, jt')
         | (Some state, jt') \<Rightarrow>
             if state AND STATUS_DONE_FINAL = 0 then (True, jt')
             else eraseFLASH_loop s (i + 1) jt')
      else (True, jt))"
  by pat_completeness auto
termination
  by (relation "measure (\<lambda>(s, i, jt). 100 - i)") auto

declare eraseFLASH_loop.simps [simp del]

text \<open>The part of \<^verbatim>\<open>eraseFLASH\<close> before the retry loop.\<close>

definition eraseFLASH_prepare :: "gowin \<Rightarrow> jtag \<Rightarrow> bool \<times> jtag" where
  "eraseFLASH_prepare s jt =
     (let (st0, jt0) = readStatusReg jt
      in if st0 AND STATUS_GOWIN_VLD \<noteq> 0 then eraseSRAM s jt0 else (True, jt0))"

definition eraseFLASH :: "gowin \<Rightarrow> jtag \<Rightarrow> bool \<times> jtag" where
  "eraseFLASH s jt =
     (let (sram, jt1) = eraseFLASH_prepare s jt
      in if \<not> sram then (False, jt1)
         else
           (let (left, jt2) = eraseFLASH_loop s 0 (emit (PrintInfo ''Erase FLASH '') jt1)
            in if \<not> left then (False, jt2)
               else
                 (let (st, jt3) = readStatusReg jt2
                  in if st AND STATUS_DONE_FINAL \<noteq> 0 then (False, emit (PrintError ''FAIL'') jt3)
                     else (True, emit (PrintSuccess ''DONE'') jt3))))"

text \<open>C integer division truncates towards zero.\<close>

definition c_div :: "int \<Rightarrow> int \<Rightarrow> int" where
  "c_div a b = sgn a * sgn b * (\<bar>a\<bar> div \<bar>b\<bar>)"

definition bswap_32 :: "u32 \<Rightarrow> u32" where
  "bswap_32 x =
     ((push_bit 24 x) AND 0xff000000) OR ((push_bit 8 x) AND 0x00ff0000) OR
     ((drop_bit 8 x) AND 0x0000ff00) OR ((drop_bit 24 x) AND 0x000000ff)"

definition autoboot_pat :: "u8 list" where
  "autoboot_pat = [0x47, 0x57, 0x31, 0x4E]"

text \<open>
  \<^verbatim>\<open>memcpy(dst, &src[off], l)\<close> into the head of \<open>dst\<close>; a read beyond \<open>src\<close> is a
  fault.
\<close>

definition memcpy_from :: "string \<Rightarrow> u8 list \<Rightarrow> nat \<Rightarrow> nat \<Rightarrow> u8 list \<Rightarrow> fault + u8 list" where
  "memcpy_from name src off l dst =
     (if off + l \<le> length src then Inr (take l (drop off src) @ drop l dst)
      else Inl (OutOfBounds name (off + l) (length src)))"

text \<open>
  \<^verbatim>\<open>for (y = 0; y < 64; ++y) { memcpy(&w, &xpage[y * 4], 4); w = bswap_32(w); shiftDR(&w, nullptr, 32); sendClkUs(...); }\<close>
\<close>

function write_page_words :: "gowin \<Rightarrow> u8 list \<Rightarrow> nat \<Rightarrow> jtag \<Rightarrow> jtag" where
  "write_page_words s xpage y jt =
     (if y < 64 then
        (let w = le32 (xpage ! (y * 4)) (xpage ! (y * 4 + 1)) (xpage ! (y * 4 + 2))
                   (xpage ! (y * 4 + 3));
             jt1 = shiftDR_wr (bytes_le32 (bswap_32 w)) 32 None jt;
             jt2 = sendClkUs (if is_gw1n1 s then 32 else 16) jt1
         in write_page_words s xpage (y + 1) jt2)
      else jt)"
  by pat_completeness auto
termination
  by (relation "measure (\<lambda>(s, xpage, y, jt). 64 - y)") auto

declare write_page_words.simps [simp del]

text \<open>What the loop of \<^verbatim>\<open>writeFLASH\<close> sends for one page, from the config-enable on.\<close>

definition flash_page_send :: "gowin \<Rightarrow> u32 \<Rightarrow> u8 list \<Rightarrow> jtag \<Rightarrow> jtag" where
  "flash_page_send s addr xpage jt =
     (let jt1 = send_command EF_PROGRAM (send_command NOOP (send_command CONFIG_ENABLE jt));
          jt2 = shiftDR_wr (bytes_le32 addr) 32 None jt1;
          jt3 = sendClkUs 16 jt2;
          jt4 = write_page_words s xpage 0 jt3
      in sendClkUs (if is_gw1n1 s then 2400 else 6) jt4)"

text \<open>
  \<^verbatim>\<open>for (int off = 0; off < length; off += 256)\<close>, with \<open>len\<close> the length in bytes.
  \<open>xpage\<close> is the 256-byte buffer, which lives across the passes.
\<close>

function writeFLASH_loop ::
  "gowin \<Rightarrow> u32 \<Rightarrow> u8 list \<Rightarrow> int \<Rightarrow> int \<Rightarrow> u8 list \<Rightarrow> jtag \<Rightarrow> fault + jtag" where
  "writeFLASH_loop s page data len off xpage jt =
     (if off < len then
        (let (xpage1, l) =
               (if len - off < 256 then (replicate 256 0xff, len - off) else (xpage, 256))
         in case memcpy_from ''data'' data (nat off) (nat l) xpage1 of
              Inl e \<Rightarrow> Inl e
            | Inr xpage2 \<Rightarrow>
                (let addr = word_of_int (c_div off 4) + page;
                     (jt1, xpage3) =
                       (if addr \<noteq> 0 then (sendClkUs 16 jt, xpage2)
                        else (jt, autoboot_pat @ drop 4 xpage2))
                 in writeFLASH_loop s page data len (off + 256) xpage3
                      (flash_page_send s addr xpage3 jt1)))
      else Inr jt)"
  by pat_completeness auto
termination
  by (relation "measure (\<lambda>(s, page, data, len, off, xpage, jt). nat (len - off))") auto

declare writeFLASH_loop.simps [simp del]

text \<open>The part of \<^verbatim>\<open>writeFLASH\<close> after the loop over the pages.\<close>

definition writeFLASH_finish :: "gowin \<Rightarrow> jtag \<Rightarrow> bool \<times> jtag" where
  "writeFLASH_finish s jt1 =
     (let (dis, jt2) = disableCfg s jt1
      in if \<not> dis then (False, emit (PrintError ''FAIL'') jt2)
         else
           (let jt3 = verbose_status s ''after write flash #1'' jt2;
                jt4 = send_command NOOP (send_command RELOAD jt3);
                jt5 = verbose_status s ''after write flash #2'' jt4;
                jt6 = emit (Usleep (500 * 1000)) (emit Flush jt5);
                jt7 = verbose_status s ''after write flash'' jt6;
                (st, jt8) = readStatusReg jt7
            in if st AND STATUS_DONE_FINAL \<noteq> 0
               then (True, emit (PrintSuccess ''DONE'') jt8)
               else (False, emit (PrintSuccess ''FAIL'') jt8)))"

text \<open>
  \<^verbatim>\<open>writeFLASH(page, data, length)\<close>: \<open>length\<close> is in bits, \<open>stack\<close> is what the
  page buffer holds before it is written.
\<close>

definition writeFLASH ::
  "gowin \<Rightarrow> (nat \<Rightarrow> u8) \<Rightarrow> u32 \<Rightarrow> u8 list \<Rightarrow> int \<Rightarrow> jtag \<Rightarrow> fault + (bool \<times> jtag)" where
  "writeFLASH s stack page data bits jt =
     (let jt0 = verbose_status s ''before write flash'' (emit (PrintInfo ''Write FLASH '') jt)
      in case writeFLASH_loop s page data (c_div bits 8) 0 (map stack [0..<256]) jt0 of
           Inl e \<Rightarrow> Inl e
         | Inr jt1 \<Rightarrow> Inr (writeFLASH_finish s jt1))"

subsection \<open>Hexadecimal text\<close>

text \<open>
  \<^verbatim>\<open>strtol(s, NULL, 16)\<close> and \<^verbatim>\<open>std::stoul(s, NULL, 16)\<close> belong to the C and
  C++ libraries: leading white space, an optional sign, an optional \<^verbatim>\<open>0x\<close> before a
  digit, then the digits up to the first character that is none. \<open>hex_scan\<close> gives the
  sign and the magnitude, or \<open>None\<close> when there is no digit to convert.
\<close>

definition isspace_c :: "char \<Rightarrow> bool" where
  "isspace_c c = (let n = (of_char c :: nat) in n = 32 \<or> (9 \<le> n \<and> n \<le> 13))"

definition hex_digit :: "char \<Rightarrow> nat option" where
  "hex_digit c =
     (let n = (of_char c :: nat)
      in if 48 \<le> n \<and> n \<le> 57 then Some (n - 48)
         else if 97 \<le> n \<and> n \<le> 102 then Some (n - 87)
         else if 65 \<le> n \<and> n \<le> 70 then Some (n - 55)
         else None)"

fun hex_accum :: "nat \<Rightarrow> string \<Rightarrow> nat" where
  "hex_accum acc [] = acc"
| "hex_accum acc (c # cs) =
     (case hex_digit c of None \<Rightarrow> acc | Some d \<Rightarrow> hex_accum (16 * acc + d) cs)"

definition hex_scan :: "string \<Rightarrow> (bool \<times> nat) option" where
  "hex_scan str =
     (let s1 = dropWhile isspace_c str;
          (neg, s2) =
            (case s1 of
               [] \<Rightarrow> (False, s1)
             | c # r \<Rightarrow>
                 if c = CHR ''-'' then (True, r)
                 else if c = CHR ''+'' then (False, r)
                 else (False, s1));
          s3 =
            (case s2 of
               z # x # h # r \<Rightarrow>
                 if z = CHR ''0'' \<and> (x = CHR ''x'' \<or> x = CHR ''X'') \<and> hex_digit h \<noteq> None
                 then h # r else s2
             | _ \<Rightarrow> s2)
      in case s3 of
           [] \<Rightarrow> None
         | c # r \<Rightarrow> if hex_digit c = None then None else Some (neg, hex_accum 0 s3))"

text \<open>\<^verbatim>\<open>strtol\<close> gives 0 when nothing converts and saturates at the ends of \<^verbatim>\<open>long\<close>.\<close>

definition strtol16 :: "string \<Rightarrow> int" where
  "strtol16 str =
     (case hex_scan str of
        None \<Rightarrow> 0
      | Some (neg, m) \<Rightarrow>
          if neg then max (- int m) (- (2 ^ 63)) else min (int m) (2 ^ 63 - 1))"

subsection \<open>Checksum verifier\<close>

text \<open>\<^verbatim>\<open>getHeaderVal\<close> throws for a key the header does not have: \<open>None\<close>.\<close>

definition getHeaderVal :: "image \<Rightarrow> string \<Rightarrow> string option" where
  "getHeaderVal img key = map_of (header img) key"

text \<open>
  \<^verbatim>\<open>checkCRC\<close>: \<open>img\<close> is \<^verbatim>\<open>_fs\<close>. The comparison
  \<^verbatim>\<open>ucode == strtol(...)\<close> is between a \<^verbatim>\<open>uint32_t\<close> and a \<^verbatim>\<open>long\<close>, so it is
  made on the values. An exception of \<^verbatim>\<open>getHeaderVal\<close> is caught and ignored.
\<close>

definition checkCRC :: "gowin \<Rightarrow> image \<Rightarrow> jtag \<Rightarrow> jtag" where
  "checkCRC s img jt =
     (let (ucode, jt1) = readUserCode jt;
          cks = checksum img
      in if (ucast (0xffff AND ucode) :: u16) = cks
         then emit (PrintSuccess ''CRC check: Success'') jt1
         else if (case getHeaderVal img ''checkSum'' of
                    None \<Rightarrow> False
                  | Some hdr \<Rightarrow> hdr \<noteq> [] \<and> uint ucode = strtol16 hdr)
         then emit (PrintSuccess ''CRC check: Success'') jt1
         else emit (CrcFailMessage ucode cks) (emit (PrintError ''CRC check : FAIL'') jt1))"

subsection \<open>Top-level internal-flash programming\<close>

text \<open>
  \<^verbatim>\<open>programFlash\<close>; \<open>img\<close> is \<^verbatim>\<open>_fs\<close>, which \<^verbatim>\<open>program\<close> has checked to be
  non-null.
\<close>

definition programFlash :: "gowin \<Rightarrow> (nat \<Rightarrow> u8) \<Rightarrow> image \<Rightarrow> jtag \<Rightarrow> fault + jtag" where
  "programFlash s stack img jt =
     (let jt1 = setClkFreq 2500000 jt;
          jt2 = send_command 0 (send_command CONFIG_DISABLE jt1);
          jt3 = emit (SetState TEST_LOGIC_RESET) jt2;
          (state, jt4) = readStatusReg jt3
      in if state AND (STATUS_GOWIN_VLD OR STATUS_POR) = 0
         then Inr (emit (DisplayReadReg ''Either GOWIN_VLD or POR should be set, aborting'' state) jt4)
         else
           (let (erased, jt5) = eraseFLASH s jt4
            in if \<not> erased then Inr jt5
               else
                 (case writeFLASH s stack 0 (getData img) (getLength img) jt5 of
                    Inl e \<Rightarrow> Inl e
                  | Inr (written, jt6) \<Rightarrow>
                      if \<not> written then Inr jt6
                      else
                        (case (case mcufw s of
                                 None \<Rightarrow> Inr (True, jt6)
                               | Some m \<Rightarrow> writeFLASH s stack 0x380 (getData m) (getLength m) jt6) of
                           Inl e \<Rightarrow> Inl e
                         | Inr (mcu_written, jt7) \<Rightarrow>
                             if \<not> mcu_written then Inr jt7
                             else
                               (let jt8 = (if verify s
                                           then emit (PrintWarn ''writing verification not supported'') jt7
                                           else jt7);
                                    jt9 = (if \<not> skip_checksum s then checkCRC s img jt8 else jt8)
                                in Inr (verbose_status s ''after program flash'' jt9))))))"

subsection \<open>Session construction\<close>

text \<open>
  The arguments of the constructor, with what the collaborators answer: the file
  extension the base class derives from the file name, what the parser of the file does
  (its constructor may throw, \<^verbatim>\<open>parse()\<close> may fail), the same for the
  microcontroller firmware (\<open>None\<close> for an empty name), and the value
  \<^verbatim>\<open>skip_checksum\<close> has before the constructor's body runs.
\<close>

datatype prog_type = NO_PROG | WR_SRAM | WR_FLASH | RD_FLASH

record parsed_file =
  ctor_throws :: bool
  parse_ok :: bool
  parsed :: image

record ctor_args =
  file_extension :: string
  bitstream_file :: parsed_file
  mcufw_file :: "parsed_file option"
  prg_type :: prog_type
  arg_external_flash :: bool
  arg_verify :: bool
  arg_verbose :: bool
  skip_checksum_init :: bool

datatype ctor_error =
    ParserException
  | IncompatibleFileFormat
  | CantParseFile
  | HeaderKeyNotFound
  | InvalidArgument
  | OutOfRange
  | IdcodeMismatch u32 u32
  | McuFwNotSupported

text \<open>
  \<^verbatim>\<open>std::stoul\<close> throws \<^verbatim>\<open>invalid_argument\<close> when nothing converts and
  \<^verbatim>\<open>out_of_range\<close> beyond \<^verbatim>\<open>unsigned long\<close>; a minus sign negates in
  \<^verbatim>\<open>unsigned long\<close>.
\<close>

definition stoul16 :: "string \<Rightarrow> ctor_error + nat" where
  "stoul16 str =
     (case hex_scan str of
        None \<Rightarrow> Inl InvalidArgument
      | Some (neg, m) \<Rightarrow>
          if 2 ^ 64 \<le> m then Inl OutOfRange
          else Inr (if neg then (2 ^ 64 - m) mod 2 ^ 64 else m))"

text \<open>
  The check of an fs file against the target:
  \<^verbatim>\<open>fs_idcode = std::stoul(getHeaderVal("idcode"), NULL, 16); if ((fs_idcode & 0x0fffffff) != idcode) throw\<close>.
\<close>

definition check_fs_idcode :: "image \<Rightarrow> u32 \<Rightarrow> ctor_error option" where
  "check_fs_idcode img idcode =
     (case getHeaderVal img ''idcode'' of
        None \<Rightarrow> Some HeaderKeyNotFound
      | Some idcode_str \<Rightarrow>
          (case stoul16 idcode_str of
             Inl e \<Rightarrow> Some e
           | Inr n \<Rightarrow>
               (let fs_idcode = (word_of_nat n :: u32)
                in if fs_idcode AND 0x0fffffff \<noteq> idcode
                   then Some (IdcodeMismatch fs_idcode idcode) else None)))"

text \<open>The first part of the constructor: the file, when a file name was given.\<close>

definition ctor_load_file :: "ctor_args \<Rightarrow> u32 \<Rightarrow> jtag \<Rightarrow> (ctor_error + image option) \<times> jtag" where
  "ctor_load_file a idcode jt =
     (if file_extension a = [] then (Inr None, jt)
      else if file_extension a \<noteq> ''fs'' \<and> \<not> arg_external_flash a
      then (Inl IncompatibleFileFormat, jt)
      else if ctor_throws (bitstream_file a) then (Inl ParserException, jt)
      else
        (let jt1 = emit (PrintInfo ''Parse file '') jt
         in if \<not> parse_ok (bitstream_file a)
            then (Inl CantParseFile, emit (PrintError ''FAIL'') jt1)
            else
              (let jt2 = emit (PrintSuccess ''DONE'') jt1;
                   img = parsed (bitstream_file a)
               in if file_extension a = ''fs''
                  then (case check_fs_idcode img idcode of
                          Some e \<Rightarrow> (Inl e, jt2)
                        | None \<Rightarrow> (Inr (Some img), jt2))
                  else (Inr (Some img), jt2))))"

text \<open>The second part: the quirk flags, by idcode.\<close>

definition ctor_flags :: "ctor_args \<Rightarrow> u32 \<Rightarrow> image option \<Rightarrow> gowin" where
  "ctor_flags a idcode img =
     (let gw1nsr_4c = (idcode = 0x0100981b);
          gw2 = (idcode = 0x0000081b \<or> idcode = 0x0000281b);
          gw5 = (idcode = 0x0001081b \<or> idcode = 0x0001181b \<or> idcode = 0x0001281b)
      in \<lparr> is_gw1n1 = (idcode = 0x0900281B),
           is_gw2a = gw2,
           is_gw1n4 = (idcode = 0x0100381B \<or> idcode = 0x100681b),
           is_gw5a = gw5,
           external_flash = (gw2 \<or> gw5 \<or> arg_external_flash a),
           skip_checksum = (gw2 \<or> gw5 \<or> skip_checksum_init a),
           spi_sck = (if gw1nsr_4c then BSCAN_GW1NSR_4C_SPI_SCK else BSCAN_SPI_SCK),
           spi_cs = (if gw1nsr_4c then BSCAN_GW1NSR_4C_SPI_CS else BSCAN_SPI_CS),
           spi_di = (if gw1nsr_4c then BSCAN_GW1NSR_4C_SPI_DI else BSCAN_SPI_DI),
           spi_do = (if gw1nsr_4c then BSCAN_GW1NSR_4C_SPI_DO else BSCAN_SPI_DO),
           spi_msk = (if gw1nsr_4c then BSCAN_GW1NSR_4C_SPI_MSK else BSCAN_SPI_MSK),
           mode = (if prg_type a = WR_FLASH then FLASH_MODE else MEM_MODE),
           verbose = arg_verbose a,
           verify = arg_verify a,
           fs = img,
           mcufw = None \<rparr>)"

text \<open>
  \<^verbatim>\<open>Gowin::Gowin\<close>. \<^verbatim>\<open>get_target_device_id()\<close> gives the idcode the transport
  holds.
\<close>

definition Gowin_ctor :: "ctor_args \<Rightarrow> jtag \<Rightarrow> (ctor_error + gowin) \<times> jtag" where
  "Gowin_ctor a jt =
     (let idcode = device_id jt
      in case ctor_load_file a idcode jt of
           (Inl e, jt1) \<Rightarrow> (Inl e, jt1)
         | (Inr img, jt1) \<Rightarrow>
             (let s = ctor_flags a idcode img
              in case mcufw_file a of
                   None \<Rightarrow> (Inr s, jt1)
                 | Some m \<Rightarrow>
                     if idcode \<noteq> 0x0100981b then (Inl McuFwNotSupported, jt1)
                     else if ctor_throws m then (Inl ParserException, jt1)
                     else if \<not> parse_ok m then (Inl CantParseFile, emit (PrintError ''FAIL'') jt1)
                     else (Inr (s\<lparr>mcufw := Some (parsed m)\<rparr>), emit (PrintSuccess ''DONE'') jt1)))"

text \<open>The calls on the transport in a log: everything but the messages.\<close>

fun is_print :: "jtag_op \<Rightarrow> bool" where
  "is_print (PrintInfo m) = True"
| "is_print (PrintError m) = True"
| "is_print (PrintSuccess m) = True"
| "is_print (PrintWarn m) = True"
| "is_print (DisplayReadReg p r) = True"
| "is_print (Printf f args) = True"
| "is_print (CrcFailMessage u c) = True"
| "is_print e = False"

definition hw_ops :: "jtag_op list \<Rightarrow> jtag_op list" where
  "hw_ops xs = filter (\<lambda>e. \<not> is_print e) xs"

subsection \<open>SPI over boundary scan: spi\_wait\<close>

text \<open>\<^verbatim>\<open>spi_gowin_write(wr, rd, 8)\<close> without and with a receive buffer.\<close>

definition spi_gowin_write :: "u8 \<Rightarrow> jtag \<Rightarrow> jtag" where
  "spi_gowin_write t jt = emit (ToggleClk 6) (shiftDR_wr [t] 8 None jt)"

definition spi_gowin_read :: "u8 \<Rightarrow> jtag \<Rightarrow> u8 \<times> jtag" where
  "spi_gowin_read t jt = (let (r, jt1) = shiftDR_rd [t] 8 None jt in (r 0, emit (ToggleClk 6) jt1))"










text \<open>
  The status byte \<^verbatim>\<open>spi_wait\<close> gets in one pass of its loop, from what the device
  answers: on the GW2A path from bytes 1 and 2 of the capturing shift \<open>n\<close>, on the legacy
  path from the data-out pin in the eight capturing shifts from \<open>n\<close> on, most significant
  bit first. \<open>spi_wait_response s jt k\<close> is the byte of pass \<open>k\<close> when \<^verbatim>\<open>spi_wait\<close>
  starts on \<open>jt\<close>.
\<close>

definition gw2a_response :: "jtag \<Rightarrow> nat \<Rightarrow> u8" where
  "gw2a_response jt n = reverseByte (drop_bit 1 (tdo jt n 1)) OR (0x01 AND tdo jt n 2)"

definition legacy_response :: "gowin \<Rightarrow> jtag \<Rightarrow> nat \<Rightarrow> u8" where
  "legacy_response s jt n =
     foldl (\<lambda>tmp j. if tdo jt (n + j) 0 AND spi_do s \<noteq> 0 then tmp OR drop_bit j 0x80 else tmp)
       0 [0..<8]"





subsection \<open>Observations on a log\<close>

text \<open>
  The data-register shifts of a log that only send (no receive buffer): the length in
  bits and the end state of each, and the bytes of each.
\<close>

fun dr_chunk :: "jtag_op \<Rightarrow> (int \<times> tapState option) list" where
  "dr_chunk (ShiftDR tx rd n nx) = (if rd then [] else [(n, nx)])"
| "dr_chunk e = []"

definition dr_chunks :: "jtag_op list \<Rightarrow> (int \<times> tapState option) list" where
  "dr_chunks xs = concat (map dr_chunk xs)"

fun dr_write :: "jtag_op \<Rightarrow> u8 list list" where
  "dr_write (ShiftDR tx rd n nx) = (if rd then [] else [tx])"
| "dr_write e = []"

definition dr_writes :: "jtag_op list \<Rightarrow> u8 list list" where
  "dr_writes xs = concat (map dr_write xs)"

text \<open>
  What the status poller and the configuration gate may put on a log: no flash-erase or
  flash-program command, no move of the TAP to shift-DR, no shift that sends data
  without reading. \<open>extends_by P jt jt'\<close>: the transport \<open>jt'\<close> is \<open>jt\<close> after further
  calls, all of which satisfy \<open>P\<close>.
\<close>

definition gate_op :: "jtag_op \<Rightarrow> bool" where
  "gate_op e =
     (e \<noteq> ShiftIR EFLASH_ERASE \<and> e \<noteq> ShiftIR EF_PROGRAM \<and> e \<noteq> SetState SHIFT_DR \<and>
      dr_write e = [])"

definition extends_by :: "(jtag_op \<Rightarrow> bool) \<Rightarrow> jtag \<Rightarrow> jtag \<Rightarrow> bool" where
  "extends_by P jt jt' =
     (\<exists>xs. ops jt' = ops jt @ xs \<and> list_all P xs \<and> tdo jt' = tdo jt \<and>
           clkfreq jt' = clkfreq jt \<and> nrd jt \<le> nrd jt')"

text \<open>The calls a run added to the log of the transport.\<close>

definition new_ops :: "jtag \<Rightarrow> jtag \<Rightarrow> jtag_op list" where
  "new_ops jt jt' = drop (length (ops jt)) (ops jt')"

text \<open>
  The erase sequence on a log. The trace of a log is made of its config-enable,
  erase-flash and config-disable commands and of the moves of the TAP. One attempt with
  \<open>n\<close> cycles leaves in the trace config-enable, erase-flash, the move to
  run-test-idle, \<open>n\<close> times the move to shift-DR and back to run-test-idle, and
  config-disable. \<open>pulses_ok\<close>: every move to shift-DR is followed at once by 32
  clocks and the move to run-test-idle.
\<close>

fun erase_mark :: "jtag_op \<Rightarrow> bool" where
  "erase_mark (ShiftIR c) = (c = CONFIG_ENABLE \<or> c = EFLASH_ERASE \<or> c = CONFIG_DISABLE)"
| "erase_mark (SetState st) = True"
| "erase_mark e = False"

definition erase_trace :: "jtag_op list \<Rightarrow> jtag_op list" where
  "erase_trace xs = filter erase_mark xs"


fun pulses_ok :: "jtag_op list \<Rightarrow> bool" where
  "pulses_ok [] = True"
| "pulses_ok (e # xs) =
     ((e = SetState SHIFT_DR \<longrightarrow> take 2 xs = [ToggleClk 32, SetState RUN_TEST_IDLE]) \<and>
      pulses_ok xs)"

text \<open>
  The status reads that end the attempts: an attempt pauses (\<^verbatim>\<open>usleep\<close>) and then
  reads the status register. For a log \<open>xs\<close> whose capturing shifts are answered with
  \<open>f k\<close>, \<open>f (k + 1)\<close>, ..., \<open>attempt_reads f k False xs\<close> lists the values read by the
  first capturing shift after each pause.
\<close>

fun is_capture :: "jtag_op \<Rightarrow> bool" where
  "is_capture (ShiftDR tx rd n nx) = rd"
| "is_capture e = False"

definition captures :: "jtag_op list \<Rightarrow> nat" where
  "captures xs = length (filter is_capture xs)"

fun attempt_reads :: "(nat \<Rightarrow> u32) \<Rightarrow> nat \<Rightarrow> bool \<Rightarrow> jtag_op list \<Rightarrow> u32 list" where
  "attempt_reads f k armed [] = []"
| "attempt_reads f k armed (ShiftDR tx rd n nx # xs) =
     (if rd then (if armed then [f k] else []) @ attempt_reads f (Suc k) False xs
      else attempt_reads f k armed xs)"
| "attempt_reads f k armed (Usleep us # xs) = attempt_reads f k True xs"
| "attempt_reads f k armed (e # xs) = attempt_reads f k armed xs"

text \<open>
  What a run from \<open>jt\<close> to \<open>jt'\<close> put on the log: its erase trace \<open>tr\<close>, the attempt
  reads \<open>vs\<close>, whether a poll timed out (the message "timeout") and whether the retry
  loop was announced (the message "Erase FLASH ").
\<close>

definition logs :: "jtag \<Rightarrow> jtag \<Rightarrow> jtag_op list \<Rightarrow> u32 list \<Rightarrow> bool \<Rightarrow> bool \<Rightarrow> bool" where
  "logs jt jt' tr vs t m =
     (\<exists>xs. ops jt' = ops jt @ xs \<and> tdo jt' = tdo jt \<and> clkfreq jt' = clkfreq jt \<and>
           nrd jt' = nrd jt + captures xs \<and>
           erase_trace xs = tr \<and> pulses_ok xs \<and>
           (\<forall>ys. attempt_reads (status_at jt) (nrd jt) False (xs @ ys) =
                 vs @ attempt_reads (status_at jt) (nrd jt + captures xs) False ys) \<and>
           (PrintError ''timeout'' \<in> set xs) = t \<and>
           (PrintInfo ''Erase FLASH '' \<in> set xs) = m)"




text \<open>
  What internal-flash programming sends for a page is one shift with the address and 64
  shifts with one 32-bit word each, most significant byte of the word first in memory.
  \<open>flash_records\<close> reads the sending shifts of a log in groups of 65: the address bytes
  and the 256 bytes of the page in their order in the image.
\<close>

function flash_records :: "u8 list list \<Rightarrow> (u8 list \<times> u8 list) list" where
  "flash_records ws =
     (if length ws < 65 then []
      else (hd ws, concat (map rev (take 64 (tl ws)))) # flash_records (drop 65 ws))"
  by pat_completeness auto
termination
  by (relation "measure length") auto

declare flash_records.simps [simp del]

text \<open>The page records sent between two states of the transport.\<close>

definition flash_log :: "jtag \<Rightarrow> jtag \<Rightarrow> (u8 list \<times> u8 list) list" where
  "flash_log jt jt' = flash_records (drop (length (dr_writes (ops jt))) (dr_writes (ops jt')))"

subsection \<open>The pages of an image, in the words of the specification\<close>

text \<open>
  Page \<open>k\<close> of an image of \<open>len\<close> bytes: its bytes from \<open>256 * k\<close> on, filled up to
  256 bytes with 0xFF. The number of pages is \<open>len / 256\<close> rounded up. The page whose
  address is 0 gets the autoboot signature in its first four bytes. The address the code
  computes for page \<open>k\<close> is \<^verbatim>\<open>off / 4 + page\<close> with \<open>off = 256 * k\<close>, in 32 bits.
\<close>

definition padded_page :: "u8 list \<Rightarrow> nat \<Rightarrow> nat \<Rightarrow> u8 list" where
  "padded_page data len k = take 256 (drop (256 * k) (take len data) @ replicate 256 0xff)"

definition page_count :: "int \<Rightarrow> nat" where
  "page_count len = nat ((len + 255) div 256)"

definition page_addr :: "u32 \<Rightarrow> nat \<Rightarrow> u32" where
  "page_addr page k = of_nat (64 * k) + page"

definition flash_page :: "u32 \<Rightarrow> u8 list \<Rightarrow> nat \<Rightarrow> nat \<Rightarrow> u8 list" where
  "flash_page page data len k =
     (if page_addr page k = 0 then autoboot_pat @ drop 4 (padded_page data len k)
      else padded_page data len k)"

text \<open>The 64 words of a page as they are shifted: each group of four bytes reversed.\<close>

definition page_words :: "u8 list \<Rightarrow> u8 list list" where
  "page_words xp =
     map (\<lambda>y. [xp ! (y * 4 + 3), xp ! (y * 4 + 2), xp ! (y * 4 + 1), xp ! (y * 4)]) [0..<64]"

subsection \<open>Example sessions and devices\<close>

text \<open>
  Concrete inputs for the examples below: the arguments of a session without a file, the
  session the constructor's flags give for an idcode, and a transport whose device
  answers every capturing shift with the bytes of one 32-bit value, least significant
  byte first.
\<close>

definition empty_image :: image where
  "empty_image = \<lparr> getData = [], getLength = 0, header = [], checksum = 0 \<rparr>"

definition quiet_args :: ctor_args where
  "quiet_args =
     \<lparr> file_extension = [],
       bitstream_file = \<lparr> ctor_throws = False, parse_ok = True, parsed = empty_image \<rparr>,
       mcufw_file = None,
       prg_type = WR_FLASH,
       arg_external_flash = False,
       arg_verify = False,
       arg_verbose = False,
       skip_checksum_init = False \<rparr>"

definition session_for :: "u32 \<Rightarrow> gowin" where
  "session_for idcode = ctor_flags quiet_args idcode None"

definition steady_device :: "u32 \<Rightarrow> u32 \<Rightarrow> jtag" where
  "steady_device idcode reg =
     \<lparr> ops = [], nrd = 0, clkfreq = 2500000, device_id = idcode,
       tdo = (\<lambda>n i. ucast (drop_bit (8 * i) reg)) \<rparr>"

text \<open>
  A transport whose device answers the \<open>n\<close>-th capturing shift with the \<open>n\<close>-th value
  of a list (and with 0 once the list is used up).
\<close>

definition script_device :: "u32 \<Rightarrow> u32 list \<Rightarrow> jtag" where
  "script_device idcode regs =
     \<lparr> ops = [], nrd = 0, clkfreq = 2500000, device_id = idcode,
       tdo = (\<lambda>n i. ucast (drop_bit (8 * i) (if n < length regs then regs ! n else 0))) \<rparr>"

text \<open>The arguments for an fs file whose header declares an idcode.\<close>

definition fs_args :: "string \<Rightarrow> ctor_args" where
  "fs_args idcode_str =
     quiet_args\<lparr> file_extension := ''fs'',
       bitstream_file :=
         \<lparr> ctor_throws = False, parse_ok = True,
           parsed = empty_image\<lparr>header := [(''idcode'', idcode_str)]\<rparr> \<rparr> \<rparr>"

subsection \<open>Properties\<close>

subsection \<open>The transport primitives\<close>

lemma emit_simps [simp]:
  "ops (emit e jt) = ops jt @ [e]"
  "nrd (emit e jt) = nrd jt"
  "tdo (emit e jt) = tdo jt"
  "clkfreq (emit e jt) = clkfreq jt"
  "device_id (emit e jt) = device_id jt"
  by (simp_all add: emit_def)

lemma status_at_emit [simp]: "status_at (emit e jt) = status_at jt"
  by (simp add: status_at_def fun_eq_iff)

lemma send_command_simps [simp]:
  "ops (send_command c jt) = ops jt @ [ShiftIR c, ToggleClk 5]"
  "nrd (send_command c jt) = nrd jt"
  "tdo (send_command c jt) = tdo jt"
  "clkfreq (send_command c jt) = clkfreq jt"
  by (simp_all add: send_command_def)

lemma status_at_send_command [simp]: "status_at (send_command c jt) = status_at jt"
  by (simp add: status_at_def fun_eq_iff)

lemma sendClkUs_simps [simp]:
  "ops (sendClkUs us jt) = ops jt @ [ToggleClk ((clkfreq jt * us) div 1000000)]"
  "nrd (sendClkUs us jt) = nrd jt"
  "tdo (sendClkUs us jt) = tdo jt"
  "clkfreq (sendClkUs us jt) = clkfreq jt"
  by (simp_all add: sendClkUs_def)

lemma shiftDR_wr_simps [simp]:
  "ops (shiftDR_wr tx n nx jt) = ops jt @ [ShiftDR tx False n nx]"
  "nrd (shiftDR_wr tx n nx jt) = nrd jt"
  "tdo (shiftDR_wr tx n nx jt) = tdo jt"
  "clkfreq (shiftDR_wr tx n nx jt) = clkfreq jt"
  by (simp_all add: shiftDR_wr_def)

lemma readReg32_simps [simp]:
  "fst (readReg32 c jt) = status_at jt (nrd jt)"
  "ops (snd (readReg32 c jt)) =
     ops jt @ [ShiftIR c, ToggleClk 5, ShiftDR (bytes_le32 0xffffffff) True 32 None]"
  "nrd (snd (readReg32 c jt)) = Suc (nrd jt)"
  "tdo (snd (readReg32 c jt)) = tdo jt"
  "clkfreq (snd (readReg32 c jt)) = clkfreq jt"
  by (simp_all add: readReg32_def shiftDR_rd_def status_at_def Let_def)

lemma status_at_readReg32 [simp]: "status_at (snd (readReg32 c jt)) = status_at jt"
  by (simp add: status_at_def fun_eq_iff)

lemma readStatusReg_eq:
  "readStatusReg jt = (status_at jt (nrd jt), snd (readReg32 STATUS_REGISTER jt))"
  by (simp add: readStatusReg_def prod_eq_iff)

lemma gw2a_fill_jtx_overflow:
  "i \<le> length jtx \<Longrightarrow> length jtx < len \<Longrightarrow> len \<le> length tx \<Longrightarrow>
   gw2a_fill_jtx tx len i jtx = Inl (OutOfBounds ''jtx'' (length jtx) (length jtx))"
proof (induction tx len i jtx rule: gw2a_fill_jtx.induct)
  case (1 tx len i jtx)
  show ?case
  proof (cases "i = length jtx")
    case True
    with "1.prems" show ?thesis
      by (subst gw2a_fill_jtx.simps) (simp add: arr_read_def arr_write_def)
  next
    case False
    with "1.prems" have lt: "i < length jtx" by simp
    with "1.prems" have il: "i < len" "i < length tx" by simp_all
    have "gw2a_fill_jtx tx len (i + 1) (jtx[i := reverseByte (tx ! i)]) =
          Inl (OutOfBounds ''jtx'' (length jtx) (length jtx))"
      using "1.IH" [of "tx ! i" "jtx[i := reverseByte (tx ! i)]"] lt il "1.prems"
      by (simp add: arr_read_def arr_write_def)
    then show ?thesis
      using lt il by (subst gw2a_fill_jtx.simps) (simp add: arr_read_def arr_write_def)
  qed
qed

lemma spi_put_gw2a_rx_overflow:
  assumes "unat len0 < length t" and "len0 \<noteq> - 1"
  shows "spi_put_gw2a stack (Some t) True len0 jt =
         Inl (OutOfBounds ''jtx'' (unat len0) (unat len0))"
proof -
  have "len0 + 1 \<noteq> 0"
  proof
    assume "len0 + 1 = 0"
    then have "len0 = - 1" by (simp add: eq_neg_iff_add_eq_0)
    with assms(2) show False by simp
  qed
  then have "unat (len0 + 1) = unat len0 + 1"
    using unatSuc [of len0] by (simp add: add.commute)
  then have "gw2a_fill_jtx t (unat (len0 + 1)) 0 (map stack [0..<unat len0]) =
             Inl (OutOfBounds ''jtx'' (length (map stack [0..<unat len0]))
                    (length (map stack [0..<unat len0])))"
    using assms(1) by (intro gw2a_fill_jtx_overflow) simp_all
  then show ?thesis
    by (simp add: spi_put_gw2a_def)
qed

subsection \<open>C9: array bounds in the GW2A path of spi\_put\<close>

text \<open>
  C9 says that in the shift-register-assisted path of \<^verbatim>\<open>spi_put\<close>, for every call
  with a receive buffer, every index into the two local arrays stays within their
  bounds. The code allocates \<^verbatim>\<open>jtx[len]\<close> and \<^verbatim>\<open>jrx[len]\<close> and only then
  increments \<^verbatim>\<open>len\<close>, so the loop that fills \<^verbatim>\<open>jtx\<close> runs one index too far.
  For a one-byte transfer with a receive buffer (the caller's \<^verbatim>\<open>tx\<close> holding two
  bytes, so that the read of \<^verbatim>\<open>tx[1]\<close> is within the caller's buffer), the code
  writes \<^verbatim>\<open>jtx[1]\<close> in an array of size 1.
\<close>

theorem spi_put_gw2a_writes_past_jtx:
  "spi_put_gw2a stack (Some [0x9f, 0x00]) True 1 jt = Inl (OutOfBounds ''jtx'' 1 1)"
  by (simp add: spi_put_gw2a_def arr_read_def arr_write_def)

subsection \<open>The status poller\<close>

lemma poll_read_simps [simp]:
  "tdo (poll_read s m jt) = tdo jt"
  "clkfreq (poll_read s m jt) = clkfreq jt"
  "nrd (poll_read s m jt) = Suc (nrd jt)"
  "status_at (poll_read s m jt) = status_at jt"
  by (simp_all add: poll_read_def readStatusReg_eq)

lemma pollFlag_loop_timeout:
  "t = 100000000 \<Longrightarrow>
   pollFlag_loop s m v t jt = (False, emit (PrintError ''timeout'') (poll_read s m jt))"
  by (subst pollFlag_loop.simps) (simp add: poll_read_def readStatusReg_eq Let_def)

lemma pollFlag_loop_match:
  "t \<noteq> 100000000 \<Longrightarrow> status_at jt (nrd jt) AND m = v \<Longrightarrow>
   pollFlag_loop s m v t jt = (True, poll_read s m jt)"
  by (subst pollFlag_loop.simps) (simp add: poll_read_def readStatusReg_eq Let_def)

lemma pollFlag_loop_again:
  "t \<noteq> 100000000 \<Longrightarrow> status_at jt (nrd jt) AND m \<noteq> v \<Longrightarrow>
   pollFlag_loop s m v t jt = pollFlag_loop s m v (t + 1) (poll_read s m jt)"
  by (subst pollFlag_loop.simps) (simp add: poll_read_def readStatusReg_eq Let_def)

lemma pollFlag_loop_frame:
  "tdo (snd (pollFlag_loop s m v t jt)) = tdo jt \<and>
   clkfreq (snd (pollFlag_loop s m v t jt)) = clkfreq jt \<and>
   status_at (snd (pollFlag_loop s m v t jt)) = status_at jt \<and>
   nrd jt < nrd (snd (pollFlag_loop s m v t jt))"
proof (induction s m v t jt rule: pollFlag_loop.induct)
  case (1 s m v t jt)
  consider (timeout) "t = 100000000"
    | (match) "t \<noteq> 100000000" "status_at jt (nrd jt) AND m = v"
    | (again) "t \<noteq> 100000000" "status_at jt (nrd jt) AND m \<noteq> v"
    by blast
  then show ?case
  proof cases
    case timeout
    then show ?thesis by (simp add: pollFlag_loop_timeout)
  next
    case match
    then show ?thesis by (simp add: pollFlag_loop_match)
  next
    case again
    have "tdo (snd (pollFlag_loop s m v (t + 1) (poll_read s m jt))) = tdo (poll_read s m jt) \<and>
      clkfreq (snd (pollFlag_loop s m v (t + 1) (poll_read s m jt))) = clkfreq (poll_read s m jt) \<and>
      status_at (snd (pollFlag_loop s m v (t + 1) (poll_read s m jt))) = status_at (poll_read s m jt) \<and>
      nrd (poll_read s m jt) < nrd (snd (pollFlag_loop s m v (t + 1) (poll_read s m jt)))"
      using again
      by (intro "1.IH" [of "readStatusReg jt" "status_at jt (nrd jt)" "snd (readReg32 STATUS_REGISTER jt)"])
        (simp_all add: readStatusReg_eq poll_read_def)
    then show ?thesis
      using again by (simp add: pollFlag_loop_again)
  qed
qed

lemma u32_counter_lt:
  "t \<noteq> (100000000 :: u32) \<Longrightarrow> unat t \<le> 100000000 \<Longrightarrow> unat t < 100000000"
  using word_unat_eq_iff [of t 100000000] by simp

lemma pollFlag_loop_reads:
  "unat t \<le> 100000000 \<Longrightarrow>
   nrd (snd (pollFlag_loop s m v t jt)) + unat t \<le> nrd jt + 100000001"
proof (induction s m v t jt rule: pollFlag_loop.induct)
  case (1 s m v t jt)
  consider (timeout) "t = 100000000"
    | (match) "t \<noteq> 100000000" "status_at jt (nrd jt) AND m = v"
    | (again) "t \<noteq> 100000000" "status_at jt (nrd jt) AND m \<noteq> v"
    by blast
  then show ?case
  proof cases
    case timeout
    then show ?thesis by (simp add: pollFlag_loop_timeout)
  next
    case match
    with "1.prems" show ?thesis by (simp add: pollFlag_loop_match)
  next
    case again
    with "1.prems" have lt: "unat t < 100000000"
      by (simp add: u32_counter_lt)
    then have suc: "unat (t + 1) = Suc (unat t)"
      by (simp add: unat_word_ariths)
    have "nrd (snd (pollFlag_loop s m v (t + 1) (poll_read s m jt))) + unat (t + 1)
          \<le> nrd (poll_read s m jt) + 100000001"
      using again lt suc
      by (intro "1.IH" [of "readStatusReg jt" "status_at jt (nrd jt)" "snd (readReg32 STATUS_REGISTER jt)"])
        (simp_all add: readStatusReg_eq poll_read_def)
    then show ?thesis
      using again suc by (simp add: pollFlag_loop_again)
  qed
qed

lemma pollFlag_loop_budget:
  "unat t \<le> 100000000 \<Longrightarrow>
   fst (pollFlag_loop s m v t jt) =
     (\<exists>k. unat t + k < 100000000 \<and> status_at jt (nrd jt + k) AND m = v)"
proof (induction s m v t jt rule: pollFlag_loop.induct)
  case (1 s m v t jt)
  consider (timeout) "t = 100000000"
    | (match) "t \<noteq> 100000000" "status_at jt (nrd jt) AND m = v"
    | (again) "t \<noteq> 100000000" "status_at jt (nrd jt) AND m \<noteq> v"
    by blast
  then show ?case
  proof cases
    case timeout
    then show ?thesis by (simp add: pollFlag_loop_timeout)
  next
    case match
    with "1.prems" have "unat t < 100000000"
      by (simp add: u32_counter_lt)
    with match show ?thesis
      by (auto simp add: pollFlag_loop_match intro: exI [of _ 0])
  next
    case again
    with "1.prems" have lt: "unat t < 100000000"
      by (simp add: u32_counter_lt)
    then have suc: "unat (t + 1) = Suc (unat t)"
      by (simp add: unat_word_ariths)
    have "fst (pollFlag_loop s m v (t + 1) (poll_read s m jt)) =
      (\<exists>k. unat (t + 1) + k < 100000000 \<and>
           status_at (poll_read s m jt) (nrd (poll_read s m jt) + k) AND m = v)"
      using again lt suc
      by (intro "1.IH" [of "readStatusReg jt" "status_at jt (nrd jt)" "snd (readReg32 STATUS_REGISTER jt)"])
        (simp_all add: readStatusReg_eq poll_read_def)
    also have "\<dots> = (\<exists>k. unat t + Suc k < 100000000 \<and> status_at jt (nrd jt + Suc k) AND m = v)"
      by (simp add: suc)
    also have "\<dots> = (\<exists>k. unat t + k < 100000000 \<and> status_at jt (nrd jt + k) AND m = v)"
    proof
      assume "\<exists>k. unat t + Suc k < 100000000 \<and> status_at jt (nrd jt + Suc k) AND m = v"
      then show "\<exists>k. unat t + k < 100000000 \<and> status_at jt (nrd jt + k) AND m = v"
        by blast
    next
      assume "\<exists>k. unat t + k < 100000000 \<and> status_at jt (nrd jt + k) AND m = v"
      then obtain k where k: "unat t + k < 100000000" "status_at jt (nrd jt + k) AND m = v"
        by blast
      with again have "k \<noteq> 0" by (cases k) auto
      then obtain k' where "k = Suc k'" by (cases k) auto
      with k show "\<exists>k. unat t + Suc k < 100000000 \<and> status_at jt (nrd jt + Suc k) AND m = v"
        by blast
    qed
    finally show ?thesis
      using again by (simp add: pollFlag_loop_again)
  qed
qed

lemma le32_bytes [simp]:
  "le32 (ucast w) (ucast (drop_bit 8 w)) (ucast (drop_bit 16 w)) (ucast (drop_bit 24 w)) = (w :: u32)"
proof (rule bit_word_eqI)
  fix n :: nat
  assume "n < LENGTH(32)"
  then have n: "n < 32" by simp
  have c: "n < 8 \<or> (8 \<le> n \<and> n < 16) \<or> (16 \<le> n \<and> n < 24) \<or> (24 \<le> n \<and> n < 32)"
    using n by arith
  then show "bit (le32 (ucast w) (ucast (drop_bit 8 w)) (ucast (drop_bit 16 w))
                  (ucast (drop_bit 24 w))) n = bit w n"
    by (auto simp add: le32_def bit_simps)
qed

lemma status_at_steady_device [simp]: "status_at (steady_device idc reg) n = reg"
  by (simp add: status_at_def steady_device_def)

lemma steady_device_simps [simp]:
  "ops (steady_device idc reg) = []"
  "nrd (steady_device idc reg) = 0"
  "clkfreq (steady_device idc reg) = 2500000"
  "device_id (steady_device idc reg) = idc"
  by (simp_all add: steady_device_def)

subsection \<open>C4: pollFlag terminates within its budget\<close>

text \<open>
  C4: for every mask and expected value \<^verbatim>\<open>pollFlag\<close> terminates; it returns success
  exactly when one of the first 100000000 status reads satisfies
  \<open>(status AND mask) = expected\<close>, and failure (after the message "timeout")
  otherwise. \<open>pollFlag\<close> is a total function, and it makes at most 100000001 status
  reads: the read made when the counter has reached 100000000 is no longer tested.
\<close>

theorem pollFlag_terminates:
  "fst (pollFlag s m v jt) = (\<exists>k<100000000. status_at jt (nrd jt + k) AND m = v) \<and>
   nrd (snd (pollFlag s m v jt)) \<le> nrd jt + 100000001"
  using pollFlag_loop_budget [of 0 s m v jt] pollFlag_loop_reads [of 0 s m v jt]
  by (simp add: pollFlag_def)

theorem pollFlag_terminates_witness:
  "fst (pollFlag (session_for 0x0900281B) STATUS_SYSTEM_EDIT_MODE STATUS_SYSTEM_EDIT_MODE
          (steady_device 0x0900281B 0x80)) \<and>
   \<not> fst (pollFlag (session_for 0x0900281B) STATUS_SYSTEM_EDIT_MODE STATUS_SYSTEM_EDIT_MODE
          (steady_device 0x0900281B 0))"
proof -
  have some: "\<exists>k :: nat. k < 100000000"
    by (rule exI [of _ 0]) simp
  show ?thesis
    using some
      pollFlag_terminates [of "session_for 0x0900281B" STATUS_SYSTEM_EDIT_MODE
        STATUS_SYSTEM_EDIT_MODE "steady_device 0x0900281B 0x80"]
      pollFlag_terminates [of "session_for 0x0900281B" STATUS_SYSTEM_EDIT_MODE
        STATUS_SYSTEM_EDIT_MODE "steady_device 0x0900281B 0"]
    by (simp add: STATUS_SYSTEM_EDIT_MODE_def)
qed

subsection \<open>C10: programFlash checks the status register first\<close>

lemma setClkFreq_simps [simp]:
  "ops (setClkFreq hz jt) = ops jt @ [SetClkFreq hz]"
  "nrd (setClkFreq hz jt) = nrd jt"
  "tdo (setClkFreq hz jt) = tdo jt"
  "clkfreq (setClkFreq hz jt) = hz"
  by (simp_all add: setClkFreq_def)

lemma status_at_setClkFreq [simp]: "status_at (setClkFreq hz jt) = status_at jt"
  by (simp add: status_at_def fun_eq_iff)

text \<open>
  C10: internal-flash programming first forces the TAP to test-logic-reset and reads the
  status register; when neither the Gowin-VLD bit nor the POR bit is set in that read,
  it returns there: all it has sent is the clock setting, the commands config-disable
  and 0, the TAP reset and the status read, followed by the message. No erase or write
  command (config-enable, erase-SRAM, erase-flash, flash-program) is among them.
\<close>

theorem programFlash_aborts_before_erase:
  assumes "status_at jt (nrd jt) AND (STATUS_GOWIN_VLD OR STATUS_POR) = 0"
  shows "\<not> isl (programFlash s stack img jt) \<and>
         ops (projr (programFlash s stack img jt)) =
           ops jt @
           [SetClkFreq 2500000,
            ShiftIR CONFIG_DISABLE, ToggleClk 5, ShiftIR 0, ToggleClk 5,
            SetState TEST_LOGIC_RESET,
            ShiftIR STATUS_REGISTER, ToggleClk 5, ShiftDR (bytes_le32 0xffffffff) True 32 None,
            DisplayReadReg ''Either GOWIN_VLD or POR should be set, aborting''
              (status_at jt (nrd jt))]"
  using assms by (simp add: programFlash_def readStatusReg_eq Let_def)

theorem programFlash_aborts_before_erase_witness:
  "\<not> isl (programFlash (session_for 0x0900281B) (\<lambda>i. 0) empty_image (steady_device 0x0900281B 0)) \<and>
   ops (projr (programFlash (session_for 0x0900281B) (\<lambda>i. 0) empty_image
                 (steady_device 0x0900281B 0))) =
     [SetClkFreq 2500000,
      ShiftIR 0x3A, ToggleClk 5, ShiftIR 0, ToggleClk 5,
      SetState TEST_LOGIC_RESET,
      ShiftIR 0x41, ToggleClk 5, ShiftDR [0xff, 0xff, 0xff, 0xff] True 32 None,
      DisplayReadReg ''Either GOWIN_VLD or POR should be set, aborting'' 0]"
  using programFlash_aborts_before_erase
    [of "steady_device 0x0900281B 0" "session_for 0x0900281B" "\<lambda>i. 0" empty_image]
  by (simp add: CONFIG_DISABLE_def STATUS_REGISTER_def bytes_le32_def)

subsection \<open>C6: the checksum verifier\<close>

lemma low16_mask [simp]: "(ucast (0xffff AND w) :: u16) = ucast (w :: u32)"
proof -
  have m: "(0xffff :: u32) = mask 16"
    by (simp add: mask_eq_exp_minus_1)
  show ?thesis
    unfolding m by (rule bit_word_eqI) (auto simp add: bit_simps)
qed

lemma readUserCode_eq:
  "readUserCode jt = (status_at jt (nrd jt), snd (readReg32 READ_USERCODE jt))"
  by (simp add: readUserCode_def prod_eq_iff)

text \<open>
  C6: \<^verbatim>\<open>checkCRC\<close> reads the user-code register and compares its low 16 bits with the
  image's checksum; when they differ it compares the whole 32-bit value with the
  header's \<^verbatim>\<open>checkSum\<close> field read as hexadecimal text; when that differs too, or
  the field is missing or empty, it prints the mismatch. In every case the function
  returns: it has no failing result, and all it sends to the device is the user-code
  read.
\<close>

theorem checkCRC_reports:
  "ops (checkCRC s img jt) =
     ops jt @
     [ShiftIR READ_USERCODE, ToggleClk 5, ShiftDR (bytes_le32 0xffffffff) True 32 None] @
     (if (ucast (status_at jt (nrd jt)) :: u16) = checksum img
      then [PrintSuccess ''CRC check: Success'']
      else if (\<exists>hdr. getHeaderVal img ''checkSum'' = Some hdr \<and> hdr \<noteq> [] \<and>
                     uint (status_at jt (nrd jt)) = strtol16 hdr)
      then [PrintSuccess ''CRC check: Success'']
      else [PrintError ''CRC check : FAIL'',
            CrcFailMessage (status_at jt (nrd jt)) (checksum img)])"
  by (auto simp add: checkCRC_def readUserCode_eq Let_def split: option.splits)

lemma strtol16_example: "strtol16 ''12345678'' = 0x12345678"
  by (simp add: strtol16_def hex_scan_def hex_digit_def isspace_c_def)

theorem checkCRC_reports_witness:
  "ops (checkCRC (session_for 0x0900281B)
          (empty_image\<lparr>checksum := 0x1234, header := [(''checkSum'', ''12345678'')]\<rparr>)
          (steady_device 0x0900281B 0x0000BEEF)) =
     [ShiftIR 0x13, ToggleClk 5, ShiftDR [0xff, 0xff, 0xff, 0xff] True 32 None,
      PrintError ''CRC check : FAIL'', CrcFailMessage 0x0000BEEF 0x1234] \<and>
   ops (checkCRC (session_for 0x0900281B)
          (empty_image\<lparr>checksum := 0x1234, header := [(''checkSum'', ''12345678'')]\<rparr>)
          (steady_device 0x0900281B 0x12345678)) =
     [ShiftIR 0x13, ToggleClk 5, ShiftDR [0xff, 0xff, 0xff, 0xff] True 32 None,
      PrintSuccess ''CRC check: Success'']"
  using
    checkCRC_reports [of "session_for 0x0900281B"
      "empty_image\<lparr>checksum := 0x1234, header := [(''checkSum'', ''12345678'')]\<rparr>"
      "steady_device 0x0900281B 0x0000BEEF"]
    checkCRC_reports [of "session_for 0x0900281B"
      "empty_image\<lparr>checksum := 0x1234, header := [(''checkSum'', ''12345678'')]\<rparr>"
      "steady_device 0x0900281B 0x12345678"]
  by (simp add: READ_USERCODE_def bytes_le32_def getHeaderVal_def empty_image_def
      strtol16_example)

subsection \<open>C7: the idcode check of the constructor\<close>

lemma hw_ops_append [simp]: "hw_ops (xs @ ys) = hw_ops xs @ hw_ops ys"
  by (simp add: hw_ops_def)

lemma hw_ops_Nil [simp]: "hw_ops [] = []"
  by (simp add: hw_ops_def)

lemma hw_ops_print [simp]: "is_print e \<Longrightarrow> hw_ops [e] = []"
  by (simp add: hw_ops_def)

lemma ctor_load_file_hw_ops:
  "hw_ops (ops (snd (ctor_load_file a idcode jt))) = hw_ops (ops jt)"
  by (simp add: ctor_load_file_def Let_def hw_ops_def split: option.splits)

lemma Gowin_ctor_hw_ops:
  "hw_ops (ops (snd (Gowin_ctor a jt))) = hw_ops (ops jt)"
proof -
  obtain r jt1 where l: "ctor_load_file a (device_id jt) jt = (r, jt1)"
    by (cases "ctor_load_file a (device_id jt) jt")
  then have "hw_ops (ops jt1) = hw_ops (ops jt)"
    using ctor_load_file_hw_ops [of a "device_id jt" jt] by simp
  then show ?thesis
    using l by (auto simp add: Gowin_ctor_def Let_def hw_ops_def split: sum.splits option.splits)
qed

text \<open>
  C7, as the code has it: for an fs file that opens and parses and whose header declares
  an idcode in hexadecimal, the constructor compares the low 28 bits of the declared
  idcode with the idcode of the target. When they differ it fails with the
  idcode-mismatch error; when they are equal and no microcontroller firmware is given it
  succeeds. Whatever the outcome, the constructor writes nothing to the device: it asks
  the transport for the idcode of the target and prints.
\<close>

theorem ctor_checks_idcode:
  assumes "file_extension a = ''fs''"
    and "\<not> ctor_throws (bitstream_file a)"
    and "parse_ok (bitstream_file a)"
    and "getHeaderVal (parsed (bitstream_file a)) ''idcode'' = Some str"
    and "stoul16 str = Inr n"
  shows "(if (word_of_nat n :: u32) AND 0x0fffffff \<noteq> device_id jt
          then fst (Gowin_ctor a jt) = Inl (IdcodeMismatch (word_of_nat n) (device_id jt))
          else mcufw_file a = None \<longrightarrow>
               fst (Gowin_ctor a jt) =
                 Inr (ctor_flags a (device_id jt) (Some (parsed (bitstream_file a))))) \<and>
         hw_ops (ops (snd (Gowin_ctor a jt))) = hw_ops (ops jt)"
  using assms Gowin_ctor_hw_ops [of a jt]
  by (simp add: Gowin_ctor_def ctor_load_file_def check_fs_idcode_def Let_def)

lemma stoul16_examples:
  "stoul16 ''12345678'' = Inr 0x12345678"
  "stoul16 ''0900281B'' = Inr 0x0900281B"
  "stoul16 ''1900281B'' = Inr 0x1900281B"
  by (simp_all add: stoul16_def hex_scan_def hex_digit_def isspace_c_def)

theorem ctor_checks_idcode_witness:
  "fst (Gowin_ctor (fs_args ''12345678'') (steady_device 0x0900281B 0)) =
     Inl (IdcodeMismatch 0x12345678 0x0900281B) \<and>
   fst (Gowin_ctor (fs_args ''0900281B'') (steady_device 0x0900281B 0)) =
     Inr (ctor_flags (fs_args ''0900281B'') 0x0900281B
            (Some (empty_image\<lparr>header := [(''idcode'', ''0900281B'')]\<rparr>))) \<and>
   is_gw1n1 (ctor_flags (fs_args ''0900281B'') 0x0900281B
            (Some (empty_image\<lparr>header := [(''idcode'', ''0900281B'')]\<rparr>))) \<and>
   hw_ops (ops (snd (Gowin_ctor (fs_args ''12345678'') (steady_device 0x0900281B 0)))) = []"
  using
    ctor_checks_idcode [of "fs_args ''12345678''" "''12345678''" "0x12345678"
      "steady_device 0x0900281B 0"]
    ctor_checks_idcode [of "fs_args ''0900281B''" "''0900281B''" "0x0900281B"
      "steady_device 0x0900281B 0"]
  by (simp add: fs_args_def quiet_args_def getHeaderVal_def stoul16_examples ctor_flags_def)

text \<open>
  C7 as stated fails: an image that declares 0x1900281B does not match a target whose
  idcode is 0x0900281B, and the constructor succeeds, since it compares the declared
  idcode without its top four bits.
\<close>

theorem ctor_accepts_other_version_nibble:
  "(0x1900281B :: u32) \<noteq> device_id (steady_device 0x0900281B 0) \<and>
   getHeaderVal (parsed (bitstream_file (fs_args ''1900281B''))) ''idcode'' = Some ''1900281B'' \<and>
   stoul16 ''1900281B'' = Inr 0x1900281B \<and>
   \<not> isl (fst (Gowin_ctor (fs_args ''1900281B'') (steady_device 0x0900281B 0)))"
  by (simp add: fs_args_def quiet_args_def getHeaderVal_def stoul16_examples
      Gowin_ctor_def ctor_load_file_def check_fs_idcode_def Let_def)

subsection \<open>C5: the chunks of writeSRAM\<close>

lemma dr_chunks_simps [simp]:
  "dr_chunks [] = []"
  "dr_chunks (xs @ ys) = dr_chunks xs @ dr_chunks ys"
  "dr_chunks (e # xs) = dr_chunk e @ dr_chunks xs"
  by (simp_all add: dr_chunks_def)

lemma verbose_status_simps [simp]:
  "tdo (verbose_status s p jt) = tdo jt"
  "clkfreq (verbose_status s p jt) = clkfreq jt"
  "status_at (verbose_status s p jt) = status_at jt"
  "nrd (verbose_status s p jt) = (if verbose s then Suc (nrd jt) else nrd jt)"
  "ops (verbose_status s p jt) =
     ops jt @ (if verbose s
               then [ShiftIR STATUS_REGISTER, ToggleClk 5,
                     ShiftDR (bytes_le32 0xffffffff) True 32 None,
                     DisplayReadReg p (status_at jt (nrd jt))]
               else [])"
  by (simp_all add: verbose_status_def readStatusReg_eq)

lemma writeSRAM_loop_chunks:
  "0 \<le> len \<Longrightarrow>
   dr_chunks (ops (writeSRAM_loop data len ptr jt)) =
     dr_chunks (ops jt) @ replicate (nat (len div pstep)) (pstep, Some SHIFT_DR) @
     (if len mod pstep = 0 then [] else [(len mod pstep, Some RUN_TEST_IDLE)])"
proof (induction data len ptr jt rule: writeSRAM_loop.induct)
  case (1 data remains ptr jt)
  from "1.prems"
  consider (zero) "remains = 0" | (last) "0 < remains" "remains < pstep" | (more) "pstep \<le> remains"
    by linarith
  then show ?case
  proof cases
    case zero
    then show ?thesis
      by (subst writeSRAM_loop.simps) simp
  next
    case last
    then have "writeSRAM_loop data remains ptr jt =
        writeSRAM_loop data 0 (ptr + remains div 8)
          (shiftDR_wr (take (nbytes remains) (drop (nat ptr) data)) remains (Some RUN_TEST_IDLE) jt)"
      by (subst writeSRAM_loop.simps) simp
    also have "\<dots> =
        shiftDR_wr (take (nbytes remains) (drop (nat ptr) data)) remains (Some RUN_TEST_IDLE) jt"
      by (subst writeSRAM_loop.simps) simp
    finally show ?thesis
      using last by simp
  next
    case more
    have p: "0 < pstep" by (simp add: pstep_def)
    let ?jt1 = "shiftDR_wr (take (nbytes pstep) (drop (nat ptr) data)) pstep (Some SHIFT_DR) jt"
    have step: "writeSRAM_loop data remains ptr jt =
        writeSRAM_loop data (remains - pstep) (ptr + pstep div 8) ?jt1"
      using more p by (subst writeSRAM_loop.simps) simp
    have ih: "dr_chunks (ops (writeSRAM_loop data (remains - pstep) (ptr + pstep div 8) ?jt1)) =
        dr_chunks (ops ?jt1) @ replicate (nat ((remains - pstep) div pstep)) (pstep, Some SHIFT_DR) @
        (if (remains - pstep) mod pstep = 0 then []
         else [((remains - pstep) mod pstep, Some RUN_TEST_IDLE)])"
      using more p
      by (intro "1.IH" [of "(pstep, SHIFT_DR)" pstep SHIFT_DR ?jt1]) simp_all
    have "((remains - pstep) + pstep) div pstep = (remains - pstep) div pstep + 1"
      using p by (intro div_add_self2) simp
    then have d: "(remains - pstep) div pstep = remains div pstep - 1"
      by simp
    have md: "(remains - pstep) mod pstep = remains mod pstep"
      by simp
    have "0 \<le> (remains - pstep) div pstep"
      using more p by (simp add: pos_imp_zdiv_nonneg_iff)
    then have pos: "1 \<le> remains div pstep"
      using d by simp
    then have r: "replicate (nat (remains div pstep)) (pstep, Some SHIFT_DR) =
        (pstep, Some SHIFT_DR) # replicate (nat (remains div pstep - 1)) (pstep, Some SHIFT_DR)"
      by (cases "nat (remains div pstep)") (simp_all add: nat_diff_distrib)
    show ?thesis
      unfolding step ih d md r by simp
  qed
qed

text \<open>
  C5 says that every chunk of \<^verbatim>\<open>writeSRAM\<close> but the last continues shifting and that
  the last one ends in run-test-idle. The loop takes a chunk for the last one only when
  fewer than 524288 bits remain (\<^verbatim>\<open>remains < chunk\<close>), so for an image of exactly
  524288 bits the only chunk, which is the last, is sent with the end state SHIFT\_DR:
  the sending shifts of the whole call are that chunk and the checksum word.
\<close>

theorem writeSRAM_full_last_chunk_keeps_shifting:
  "dr_chunks (ops (snd (writeSRAM s (img\<lparr>getLength := 524288\<rparr>) jt))) =
     dr_chunks (ops jt) @ [(524288, Some SHIFT_DR), (32, None)]"
proof -
  have "dr_chunks (ops (writeSRAM_loop (getData img) 524288 0 jt')) =
        dr_chunks (ops jt') @ [(524288, Some SHIFT_DR)]" for jt'
    using writeSRAM_loop_chunks [of 524288 "getData img" 0 jt']
    by (simp add: pstep_def)
  then show ?thesis
    by (simp add: writeSRAM_def readStatusReg_eq Let_def)
qed

subsection \<open>The page loop of writeFLASH\<close>

lemma dr_writes_simps [simp]:
  "dr_writes [] = []"
  "dr_writes (xs @ ys) = dr_writes xs @ dr_writes ys"
  "dr_writes (e # xs) = dr_write e @ dr_writes xs"
  by (simp_all add: dr_writes_def)

lemma bswap_bytes:
  "bytes_le32 (bswap_32 (le32 a b c d)) = [d, c, b, a]"
proof -
  have m: "(0xff000000 :: u32) = push_bit 24 (mask 8)" "(0x00ff0000 :: u32) = push_bit 16 (mask 8)"
    "(0x0000ff00 :: u32) = push_bit 8 (mask 8)" "(0x000000ff :: u32) = mask 8"
    by (simp_all add: mask_eq_exp_minus_1)
  have "ucast (bswap_32 (le32 a b c d)) = d"
    unfolding bswap_32_def le32_def m
    by (rule bit_word_eqI) (auto simp add: bit_simps dest: bit_imp_le_length)
  moreover have "ucast (drop_bit 8 (bswap_32 (le32 a b c d))) = c"
    unfolding bswap_32_def le32_def m
    by (rule bit_word_eqI) (auto simp add: bit_simps dest: bit_imp_le_length)
  moreover have "ucast (drop_bit 16 (bswap_32 (le32 a b c d))) = b"
    unfolding bswap_32_def le32_def m
    by (rule bit_word_eqI) (auto simp add: bit_simps dest: bit_imp_le_length)
  moreover have "ucast (drop_bit 24 (bswap_32 (le32 a b c d))) = a"
    unfolding bswap_32_def le32_def m
    by (rule bit_word_eqI) (auto simp add: bit_simps dest: bit_imp_le_length)
  ultimately show ?thesis
    by (simp add: bytes_le32_def)
qed

lemma write_page_words_step:
  "y < 64 \<Longrightarrow>
   write_page_words s xp y jt =
     write_page_words s xp (y + 1)
       (sendClkUs (if is_gw1n1 s then 32 else 16)
          (shiftDR_wr [xp ! (y * 4 + 3), xp ! (y * 4 + 2), xp ! (y * 4 + 1), xp ! (y * 4)]
             32 None jt))"
  by (subst write_page_words.simps) (simp add: Let_def bswap_bytes)

lemma write_page_words_stop: "\<not> y < 64 \<Longrightarrow> write_page_words s xp y jt = jt"
  by (subst write_page_words.simps) simp

lemma write_page_words_spec:
  "dr_writes (ops (write_page_words s xp y jt)) =
     dr_writes (ops jt) @
     map (\<lambda>y. [xp ! (y * 4 + 3), xp ! (y * 4 + 2), xp ! (y * 4 + 1), xp ! (y * 4)]) [y..<64] \<and>
   clkfreq (write_page_words s xp y jt) = clkfreq jt \<and>
   tdo (write_page_words s xp y jt) = tdo jt \<and>
   nrd (write_page_words s xp y jt) = nrd jt"
proof (induction "64 - y" arbitrary: y jt)
  case 0
  then show ?case by (simp add: write_page_words_stop)
next
  case (Suc n)
  then have y: "y < 64" and n: "n = 64 - (y + 1)" by simp_all
  show ?case
    using Suc.hyps(1) [OF n] y
    by (simp add: write_page_words_step upt_conv_Cons)
qed

lemma flash_page_send_spec:
  "dr_writes (ops (flash_page_send s addr xp jt)) =
     dr_writes (ops jt) @ bytes_le32 addr # page_words xp \<and>
   clkfreq (flash_page_send s addr xp jt) = clkfreq jt \<and>
   tdo (flash_page_send s addr xp jt) = tdo jt \<and>
   nrd (flash_page_send s addr xp jt) = nrd jt"
  by (simp add: flash_page_send_def Let_def write_page_words_spec page_words_def)

lemma length_padded_page [simp]: "length (padded_page data len k) = 256"
  by (simp add: padded_page_def)

lemma length_flash_page [simp]: "length (flash_page page data len k) = 256"
  by (simp add: flash_page_def autoboot_pat_def)

lemma page_fill_full:
  assumes "256 * k + 256 \<le> len" and "len \<le> length data" and "length xpage = 256"
  shows "take 256 (drop (256 * k) data) @ drop 256 xpage = padded_page data len k"
  using assms by (auto simp add: padded_page_def drop_take min_def)

lemma page_fill_short:
  assumes "256 * k < len" and "len < 256 * k + 256" and "len \<le> length data"
  shows "take (len - 256 * k) (drop (256 * k) data) @ drop (len - 256 * k) (replicate 256 0xff) =
         padded_page data len k"
  using assms by (auto simp add: padded_page_def drop_take min_def)

lemma c_div_nonneg: "0 \<le> a \<Longrightarrow> 0 < b \<Longrightarrow> c_div a b = a div b"
  by (cases "a = 0") (simp_all add: c_div_def)

lemma writeFLASH_loop_step:
  assumes lt: "int (256 * k) < len" and data: "nat len \<le> length data"
    and xp: "length xpage = 256"
  shows "writeFLASH_loop s page data len (int (256 * k)) xpage jt =
     writeFLASH_loop s page data len (int (256 * Suc k)) (flash_page page data (nat len) k)
       (flash_page_send s (page_addr page k) (flash_page page data (nat len) k)
          (if page_addr page k \<noteq> 0 then sendClkUs 16 jt else jt))"
proof -
  have addr: "word_of_int (c_div (int (256 * k)) 4) + page = page_addr page k"
    by (simp add: c_div_nonneg page_addr_def)
  have off: "int (256 * k) + 256 = int (256 * Suc k)" by simp
  have a: "nat (int (256 * k)) = 256 * k" by simp
  have b: "nat (len - int (256 * k)) = nat len - 256 * k" by arith
  have k: "256 * k < nat len" using lt by arith
  show ?thesis
  proof (cases "len - int (256 * k) < 256")
    case True
    then have short: "nat len < 256 * k + 256" by arith
    have fill: "memcpy_from ''data'' data (nat (int (256 * k))) (nat (len - int (256 * k)))
                 (replicate 256 0xff) = Inr (padded_page data (nat len) k)"
      unfolding memcpy_from_def a b
      using k data short page_fill_short [OF k short data] by simp
    have "writeFLASH_loop s page data len (int (256 * k)) xpage jt =
      (let addr = word_of_int (c_div (int (256 * k)) 4) + page;
           xpage2 = padded_page data (nat len) k;
           (jt1, xpage3) =
             (if addr \<noteq> 0 then (sendClkUs 16 jt, xpage2)
              else (jt, autoboot_pat @ drop 4 xpage2))
       in writeFLASH_loop s page data len (int (256 * k) + 256) xpage3
            (flash_page_send s addr xpage3 jt1))"
      using lt True by (subst writeFLASH_loop.simps) (simp only: fill if_True Let_def prod.case sum.case)
    then show ?thesis
      unfolding addr off by (simp add: flash_page_def Let_def del: of_nat_mult of_nat_Suc mult_Suc_right)
  next
    case False
    then have full: "256 * k + 256 \<le> nat len" by arith
    have fill: "memcpy_from ''data'' data (nat (int (256 * k))) (nat 256) xpage =
                Inr (padded_page data (nat len) k)"
      unfolding memcpy_from_def a
      using full data page_fill_full [OF full data xp] by simp
    have "writeFLASH_loop s page data len (int (256 * k)) xpage jt =
      (let addr = word_of_int (c_div (int (256 * k)) 4) + page;
           xpage2 = padded_page data (nat len) k;
           (jt1, xpage3) =
             (if addr \<noteq> 0 then (sendClkUs 16 jt, xpage2)
              else (jt, autoboot_pat @ drop 4 xpage2))
       in writeFLASH_loop s page data len (int (256 * k) + 256) xpage3
            (flash_page_send s addr xpage3 jt1))"
      using lt False by (subst writeFLASH_loop.simps) (simp only: fill if_True if_False Let_def prod.case sum.case)
    then show ?thesis
      unfolding addr off by (simp add: flash_page_def Let_def del: of_nat_mult of_nat_Suc mult_Suc_right)
  qed
qed

lemma writeFLASH_loop_stop:
  "\<not> off < len \<Longrightarrow> writeFLASH_loop s page data len off xpage jt = Inr jt"
  by (subst writeFLASH_loop.simps) simp

lemma page_count_gt: "(k < page_count len) = (int (256 * k) < len)"
  unfolding page_count_def by arith

lemma writeFLASH_loop_spec:
  assumes "nat len \<le> length data" and "length xpage = 256"
  shows "\<exists>jt'. writeFLASH_loop s page data len (int (256 * k)) xpage jt = Inr jt' \<and>
           dr_writes (ops jt') =
             dr_writes (ops jt) @
             concat (map (\<lambda>k. bytes_le32 (page_addr page k) #
                                 page_words (flash_page page data (nat len) k))
                       [k..<page_count len]) \<and>
           clkfreq jt' = clkfreq jt \<and> tdo jt' = tdo jt \<and> nrd jt' = nrd jt"
  using assms(2)
proof (induction "page_count len - k" arbitrary: k xpage jt)
  case 0
  then have "\<not> int (256 * k) < len"
    using page_count_gt [of k len] by simp
  with 0 show ?case
    by (simp add: writeFLASH_loop_stop del: of_nat_mult)
next
  case (Suc n)
  then have k: "k < page_count len" by simp
  then have lt: "int (256 * k) < len"
    by (simp only: page_count_gt)
  let ?xp = "flash_page page data (nat len) k"
  let ?jt1 = "flash_page_send s (page_addr page k) ?xp
                (if page_addr page k \<noteq> 0 then sendClkUs 16 jt else jt)"
  have n: "n = page_count len - Suc k" using Suc.hyps(2) by simp
  obtain jt' where r: "writeFLASH_loop s page data len (int (256 * Suc k)) ?xp ?jt1 = Inr jt'"
    and w: "dr_writes (ops jt') =
             dr_writes (ops ?jt1) @
             concat (map (\<lambda>k. bytes_le32 (page_addr page k) #
                                 page_words (flash_page page data (nat len) k))
                       [Suc k..<page_count len])"
    and f: "clkfreq jt' = clkfreq ?jt1" "tdo jt' = tdo ?jt1" "nrd jt' = nrd ?jt1"
    using Suc.hyps(1) [OF n, of ?xp ?jt1] by auto
  have "writeFLASH_loop s page data len (int (256 * k)) xpage jt = Inr jt'"
    using writeFLASH_loop_step [OF lt assms(1) Suc.prems] r by simp
  moreover have "dr_writes (ops ?jt1) =
      dr_writes (ops jt) @ bytes_le32 (page_addr page k) # page_words ?xp"
    by (simp add: flash_page_send_spec)
  moreover have "clkfreq ?jt1 = clkfreq jt" "tdo ?jt1 = tdo jt" "nrd ?jt1 = nrd jt"
    by (simp_all add: flash_page_send_spec)
  ultimately show ?case
    using w f k by (simp add: upt_conv_Cons del: of_nat_mult)
qed

subsection \<open>What the poller and the gate put on the log\<close>

lemma extends_by_refl [simp]: "extends_by P jt jt"
  by (simp add: extends_by_def)

lemma extends_by_trans:
  "extends_by P jt jt1 \<Longrightarrow> extends_by P jt1 jt2 \<Longrightarrow> extends_by P jt jt2"
  by (auto simp add: extends_by_def)

lemma extends_by_emit: "P e \<Longrightarrow> extends_by P jt jt1 \<Longrightarrow> extends_by P jt (emit e jt1)"
  by (auto simp add: extends_by_def)

lemma extends_by_send_command:
  "P (ShiftIR c) \<Longrightarrow> P (ToggleClk 5) \<Longrightarrow> extends_by P jt jt1 \<Longrightarrow>
   extends_by P jt (send_command c jt1)"
  by (auto simp add: extends_by_def)

lemma extends_by_readReg32:
  "P (ShiftIR c) \<Longrightarrow> P (ToggleClk 5) \<Longrightarrow> P (ShiftDR (bytes_le32 0xffffffff) True 32 None) \<Longrightarrow>
   extends_by P jt jt1 \<Longrightarrow> extends_by P jt (snd (readReg32 c jt1))"
  by (auto simp add: extends_by_def)

lemma extends_by_mono:
  "(\<And>e. P e \<Longrightarrow> Q e) \<Longrightarrow> extends_by P jt jt' \<Longrightarrow> extends_by Q jt jt'"
  by (auto simp add: extends_by_def list_all_iff)

lemma extends_by_status_at: "extends_by P jt jt' \<Longrightarrow> status_at jt' = status_at jt"
  by (auto simp add: extends_by_def status_at_def fun_eq_iff)

lemma gate_op_simps [simp]:
  "gate_op (ShiftIR c) = (c \<noteq> EFLASH_ERASE \<and> c \<noteq> EF_PROGRAM)"
  "gate_op (ToggleClk n)"
  "gate_op (ShiftDR tx rd bits nx) = rd"
  "gate_op (SetState st) = (st \<noteq> SHIFT_DR)"
  "gate_op Flush" "gate_op (Usleep us)" "gate_op (SetClkFreq hz)"
  "gate_op (PrintInfo m)" "gate_op (PrintError m)" "gate_op (PrintSuccess m)"
  "gate_op (PrintWarn m)" "gate_op (DisplayReadReg p r)" "gate_op (Printf f a)"
  "gate_op (CrcFailMessage u cks)"
  by (auto simp add: gate_op_def)

lemma poll_read_gate: "extends_by gate_op jt jt1 \<Longrightarrow> extends_by gate_op jt (poll_read s m jt1)"
  by (simp add: poll_read_def readStatusReg_eq extends_by_emit extends_by_readReg32
      STATUS_REGISTER_def EFLASH_ERASE_def EF_PROGRAM_def)

lemma pollFlag_loop_gate:
  "extends_by gate_op jt0 jt \<Longrightarrow> extends_by gate_op jt0 (snd (pollFlag_loop s m v t jt))"
proof (induction s m v t jt rule: pollFlag_loop.induct)
  case (1 s m v t jt)
  consider (timeout) "t = 100000000"
    | (match) "t \<noteq> 100000000" "status_at jt (nrd jt) AND m = v"
    | (again) "t \<noteq> 100000000" "status_at jt (nrd jt) AND m \<noteq> v"
    by blast
  then show ?case
  proof cases
    case timeout
    then show ?thesis
      using "1.prems" by (simp add: pollFlag_loop_timeout extends_by_emit poll_read_gate)
  next
    case match
    then show ?thesis
      using "1.prems" by (simp add: pollFlag_loop_match poll_read_gate)
  next
    case again
    have "extends_by gate_op jt0 (snd (pollFlag_loop s m v (t + 1) (poll_read s m jt)))"
      using again "1.prems"
      by (intro "1.IH" [of "readStatusReg jt" "status_at jt (nrd jt)"
            "snd (readReg32 STATUS_REGISTER jt)"])
        (simp_all add: readStatusReg_eq poll_read_def extends_by_emit extends_by_readReg32
          STATUS_REGISTER_def EFLASH_ERASE_def EF_PROGRAM_def)
    then show ?thesis
      using again by (simp add: pollFlag_loop_again)
  qed
qed


lemma disableCfg_gate:
  "extends_by gate_op jt0 jt \<Longrightarrow> extends_by gate_op jt0 (snd (disableCfg s jt))"
  by (simp add: disableCfg_def pollFlag_def pollFlag_loop_gate extends_by_send_command
      CONFIG_DISABLE_def NOOP_def EFLASH_ERASE_def EF_PROGRAM_def)

lemma verbose_status_gate:
  "extends_by gate_op jt0 jt \<Longrightarrow> extends_by gate_op jt0 (verbose_status s p jt)"
  by (simp add: verbose_status_def readStatusReg_eq extends_by_emit extends_by_readReg32
      STATUS_REGISTER_def EFLASH_ERASE_def EF_PROGRAM_def)

lemma readStatusReg_gate:
  "extends_by gate_op jt0 jt \<Longrightarrow> extends_by gate_op jt0 (snd (readStatusReg jt))"
  by (simp add: readStatusReg_eq extends_by_readReg32
      STATUS_REGISTER_def EFLASH_ERASE_def EF_PROGRAM_def)


lemma gate_dr_writes:
  "extends_by gate_op jt jt' \<Longrightarrow> dr_writes (ops jt') = dr_writes (ops jt)"
proof -
  have "list_all gate_op xs \<Longrightarrow> dr_writes xs = []" for xs
    by (induction xs) (simp_all add: gate_op_def)
  then show "extends_by gate_op jt jt' \<Longrightarrow> dr_writes (ops jt') = dr_writes (ops jt)"
    by (auto simp add: extends_by_def)
qed

subsection \<open>The page records of writeFLASH\<close>

lemma concat_words_take:
  "4 * n \<le> length xp \<Longrightarrow>
   concat (map (\<lambda>y. [xp ! (y * 4), xp ! (y * 4 + 1), xp ! (y * 4 + 2), xp ! (y * 4 + 3)]) [0..<n]) =
   take (4 * n) xp"
proof (induction n)
  case 0
  then show ?case by simp
next
  case (Suc n)
  then have l: "n * 4 < length xp" "n * 4 + 1 < length xp" "n * 4 + 2 < length xp"
    "n * 4 + 3 < length xp"
    by simp_all
  have e: "4 * Suc n = Suc (Suc (Suc (Suc (n * 4))))"
    by simp
  have "take (4 * Suc n) xp = take (Suc (Suc (Suc (Suc (n * 4))))) xp"
    by (simp only: e)
  also have "\<dots> = take (n * 4) xp @ [xp ! (n * 4), xp ! (n * 4 + 1), xp ! (n * 4 + 2), xp ! (n * 4 + 3)]"
  proof -
    have s: "n * 4 + 1 = Suc (n * 4)" "n * 4 + 2 = Suc (Suc (n * 4))"
      "n * 4 + 3 = Suc (Suc (Suc (n * 4)))"
      by simp_all
    show ?thesis
      using l unfolding s by (simp add: take_Suc_conv_app_nth)
  qed
  finally show ?case
    using Suc by (simp add: mult.commute)
qed

lemma concat_rev_page_words:
  "length xp = 256 \<Longrightarrow> concat (map rev (page_words xp)) = xp"
  using concat_words_take [of 64 xp] by (simp add: page_words_def comp_def)

lemma length_page_words [simp]: "length (page_words xp) = 64"
  by (simp add: page_words_def)

lemma flash_records_page:
  "length xp = 256 \<Longrightarrow>
   flash_records ((a # page_words xp) @ rest) = (a, xp) # flash_records rest"
  by (subst flash_records.simps) (simp add: concat_rev_page_words)

lemma flash_records_pages:
  "(\<And>k. length (xp k) = 256) \<Longrightarrow>
   flash_records (concat (map (\<lambda>k. a k # page_words (xp k)) ks)) = map (\<lambda>k. (a k, xp k)) ks"
proof (induction ks)
  case Nil
  show ?case by (subst flash_records.simps) simp
next
  case (Cons k ks)
  then show ?case
    using flash_records_page [of "xp k" "a k"] by simp
qed

lemma writeFLASH_finish_gate:
  "extends_by gate_op jt0 jt \<Longrightarrow> extends_by gate_op jt0 (snd (writeFLASH_finish s jt))"
  by (simp add: writeFLASH_finish_def Let_def split_beta
      disableCfg_gate verbose_status_gate readStatusReg_gate
      extends_by_emit extends_by_send_command
      RELOAD_def NOOP_def EFLASH_ERASE_def EF_PROGRAM_def)

lemma writeFLASH_records:
  assumes "nat (c_div bits 8) \<le> length data"
  shows "\<not> isl (writeFLASH s stack page data bits jt) \<and>
         flash_log jt (snd (projr (writeFLASH s stack page data bits jt))) =
           map (\<lambda>k. (bytes_le32 (page_addr page k),
                      flash_page page data (nat (c_div bits 8)) k))
             [0..<page_count (c_div bits 8)]"
proof -
  let ?len = "c_div bits 8"
  let ?jt0 = "verbose_status s ''before write flash'' (emit (PrintInfo ''Write FLASH '') jt)"
  have g0: "extends_by gate_op jt ?jt0"
    by (simp add: verbose_status_gate extends_by_emit)
  obtain jt1 where l: "writeFLASH_loop s page data ?len 0 (map stack [0..<256]) ?jt0 = Inr jt1"
    and w: "dr_writes (ops jt1) =
             dr_writes (ops ?jt0) @
             concat (map (\<lambda>k. bytes_le32 (page_addr page k) #
                                 page_words (flash_page page data (nat ?len) k))
                       [0..<page_count ?len])"
    using writeFLASH_loop_spec [OF assms, of "map stack [0..<256]" s page 0 ?jt0] by auto
  obtain r jt2 where fin: "writeFLASH_finish s jt1 = (r, jt2)"
    by (cases "writeFLASH_finish s jt1")
  have res: "writeFLASH s stack page data bits jt = Inr (r, jt2)"
    using l fin by (simp add: writeFLASH_def)
  have g2: "extends_by gate_op jt1 jt2"
    using writeFLASH_finish_gate [of jt1 jt1 s] fin by simp
  have "dr_writes (ops jt2) =
          dr_writes (ops jt) @
          concat (map (\<lambda>k. bytes_le32 (page_addr page k) #
                              page_words (flash_page page data (nat ?len) k))
                    [0..<page_count ?len])"
    using gate_dr_writes [OF g0] gate_dr_writes [OF g2] w by simp
  then show ?thesis
    using res by (simp add: flash_log_def flash_records_pages)
qed

lemma padded_page_image:
  "256 * k + i < len \<Longrightarrow> len \<le> length data \<Longrightarrow> i < 256 \<Longrightarrow>
   padded_page data len k ! i = data ! (256 * k + i)"
  by (auto simp add: padded_page_def nth_append)

lemma padded_page_fill:
  "len \<le> 256 * k + i \<Longrightarrow> len \<le> length data \<Longrightarrow> i < 256 \<Longrightarrow>
   padded_page data len k ! i = 0xff"
  by (auto simp add: padded_page_def nth_append)

subsection \<open>C1: the pages of writeFLASH\<close>

text \<open>
  C1: for every image (holding the \<open>length / 8\<close> bytes that \<^verbatim>\<open>writeFLASH\<close> is told
  to write) and every page offset, \<^verbatim>\<open>writeFLASH\<close> sends the image in pages of 256
  bytes: exactly \<open>length / 256\<close> rounded up of them, page \<open>k\<close> holding the bytes of
  the image from \<open>256 * k\<close> on, a short last page filled up with 0xFF, and the page whose
  address is 0 with its first four bytes replaced by the signature 'G', 'W', '1', 'N'.
\<close>

theorem writeFLASH_writes_pages:
  assumes "nat (c_div bits 8) \<le> length data"
  shows "\<not> isl (writeFLASH s stack page data bits jt) \<and>
         length (flash_log jt (snd (projr (writeFLASH s stack page data bits jt)))) =
           page_count (c_div bits 8) \<and>
         map snd (flash_log jt (snd (projr (writeFLASH s stack page data bits jt)))) =
           map (\<lambda>k. if page_addr page k = 0
                     then autoboot_pat @ drop 4 (padded_page data (nat (c_div bits 8)) k)
                     else padded_page data (nat (c_div bits 8)) k)
             [0..<page_count (c_div bits 8)]"
  using writeFLASH_records [OF assms, of s stack page jt]
  by (simp add: flash_page_def comp_def)

theorem writeFLASH_writes_pages_witness:
  "\<not> isl (writeFLASH (session_for 0x0900281B) (\<lambda>i. 0) 0 [1, 2, 3, 4, 5] 40
            (steady_device 0x0900281B 0x2000)) \<and>
   map snd (flash_log (steady_device 0x0900281B 0x2000)
      (snd (projr (writeFLASH (session_for 0x0900281B) (\<lambda>i. 0) 0 [1, 2, 3, 4, 5] 40
                     (steady_device 0x0900281B 0x2000))))) =
     [[0x47, 0x57, 0x31, 0x4E, 5] @ replicate 251 0xff]"
  using writeFLASH_writes_pages [where bits = 40 and data = "[1, 2, 3, 4, 5]"
      and s = "session_for 0x0900281B" and stack = "\<lambda>i. 0" and page = 0
      and jt = "steady_device 0x0900281B 0x2000"]
  by (simp add: c_div_def page_count_def page_addr_def padded_page_def autoboot_pat_def)

subsection \<open>C2: the page addresses of writeFLASH\<close>

text \<open>
  C2, as the code has it: the address shifted into the data register before the payload
  of page \<open>k\<close> (counting from 0) is the supplied offset plus \<open>64 * k\<close>, in 32 bits,
  least significant byte first: \<^verbatim>\<open>addr = off / 4 + page\<close>, where \<open>off\<close> is the
  offset of the page in the image in bytes. The address counts 32-bit words, 64 to a
  page.
\<close>

theorem writeFLASH_page_addresses:
  assumes "nat (c_div bits 8) \<le> length data"
  shows "map fst (flash_log jt (snd (projr (writeFLASH s stack page data bits jt)))) =
           map (\<lambda>k. bytes_le32 (page + 64 * of_nat k)) [0..<page_count (c_div bits 8)]"
  using writeFLASH_records [OF assms, of s stack page jt]
  by (simp add: page_addr_def comp_def add.commute)

lemma two_pages: "[0..<page_count (c_div 4096 8)] = [0, 1]"
  by (simp add: c_div_def page_count_def upt_rec)

theorem writeFLASH_page_addresses_witness:
  "map fst (flash_log (steady_device 0x0900281B 0x2000)
      (snd (projr (writeFLASH (session_for 0x0900281B) (\<lambda>i. 0) 0x380 (replicate 512 0) 4096
                     (steady_device 0x0900281B 0x2000))))) =
     [[0x80, 0x03, 0, 0], [0xC0, 0x03, 0, 0]]"
  using writeFLASH_page_addresses [where bits = 4096 and data = "replicate 512 0"
      and s = "session_for 0x0900281B" and stack = "\<lambda>i. 0" and page = "0x380"
      and jt = "steady_device 0x0900281B 0x2000"]
  by (simp add: two_pages bytes_le32_def) (simp add: c_div_def)

text \<open>
  C2 as stated fails: with the offset 0 and an image of two pages, the address sent for
  page 1 is 64, not \<open>0 + 1\<close>.
\<close>

theorem writeFLASH_second_page_address:
  "map fst (flash_log (steady_device 0x0900281B 0x2000)
      (snd (projr (writeFLASH (session_for 0x0900281B) (\<lambda>i. 0) 0 (replicate 512 0) 4096
                     (steady_device 0x0900281B 0x2000))))) ! 1 = bytes_le32 64 \<and>
   bytes_le32 64 \<noteq> bytes_le32 (0 + 1)"
proof -
  have "nat (c_div 4096 8) \<le> length (replicate 512 (0 :: u8))"
    by (simp add: c_div_def)
  from writeFLASH_records [OF this, where s = "session_for 0x0900281B" and stack = "\<lambda>i. 0"
      and page = 0 and jt = "steady_device 0x0900281B 0x2000"]
  show ?thesis
    by (simp add: two_pages page_addr_def bytes_le32_def)
qed

subsection \<open>The retry loop of eraseFLASH\<close>

lemma gate_any: "extends_by gate_op jt jt' \<Longrightarrow> extends_by (\<lambda>e. True) jt jt'"
  by (rule extends_by_mono) simp_all

lemma erase_pulses_step:
  "i < nb \<Longrightarrow>
   erase_pulses i nb jt =
     erase_pulses (i + 1) nb
       (emit (SetState RUN_TEST_IDLE) (emit (ToggleClk 32) (emit (SetState SHIFT_DR) jt)))"
  by (subst erase_pulses.simps) simp

lemma erase_pulses_stop: "\<not> i < nb \<Longrightarrow> erase_pulses i nb jt = jt"
  by (subst erase_pulses.simps) simp

lemma erase_pulses_spec:
  "extends_by (\<lambda>e. True) jt (erase_pulses i nb jt) \<and>
   nrd (erase_pulses i nb jt) = nrd jt"
proof (induction "nat (nb - i)" arbitrary: i jt)
  case 0
  then show ?case by (simp add: erase_pulses_stop)
next
  case (Suc n)
  then have lt: "i < nb" and n: "n = nat (nb - (i + 1))" by simp_all
  let ?jt1 = "emit (SetState RUN_TEST_IDLE) (emit (ToggleClk 32) (emit (SetState SHIFT_DR) jt))"
  have e: "extends_by (\<lambda>e. True) jt ?jt1"
    by (simp add: extends_by_emit)
  show ?case
    using Suc.hyps(1) [OF n, of ?jt1] lt e
    by (auto simp add: erase_pulses_step intro: extends_by_trans)
qed




lemma verbose_status_any:
  "extends_by (\<lambda>e. True) jt0 jt \<Longrightarrow> extends_by (\<lambda>e. True) jt0 (verbose_status s p jt)"
  using extends_by_trans [OF _ gate_any [OF verbose_status_gate [OF extends_by_refl]]] .












lemma erase_pulses_frame [simp]:
  "nrd (erase_pulses i nb jt) = nrd jt"
  "status_at (erase_pulses i nb jt) = status_at jt"
  using erase_pulses_spec [where i = i and nb = nb and jt = jt] by (auto dest: extends_by_status_at)

lemma status_at_sendClkUs [simp]: "status_at (sendClkUs us jt) = status_at jt"
  by (simp add: status_at_def fun_eq_iff)

lemma status_at_script_device [simp]:
  "status_at (script_device idc regs) n = (if n < length regs then regs ! n else 0)"
  by (simp add: status_at_def script_device_def)

lemma script_device_simps [simp]:
  "ops (script_device idc regs) = []"
  "nrd (script_device idc regs) = 0"
  "clkfreq (script_device idc regs) = 2500000"
  "device_id (script_device idc regs) = idc"
  by (simp_all add: script_device_def)

lemma session_for_simps [simp]:
  "verbose (session_for idc) = False"
  "is_gw1n1 (session_for idc) = (idc = 0x0900281B)"
  "is_gw2a (session_for idc) = (idc = 0x0000081b \<or> idc = 0x0000281b)"
  "mcufw (session_for idc) = None"
  by (simp_all add: session_for_def ctor_flags_def quiet_args_def Let_def)


subsection \<open>The loops of spi\_wait\<close>

lemma u32_pred_less: "(x :: u32) \<noteq> 0 \<Longrightarrow> unat (x - 1) < unat x"
  by (simp add: unat_minus_one unat_gt_0)

lemma spi_gowin_write_simps [simp]:
  "ops (spi_gowin_write t jt) = ops jt @ [ShiftDR [t] False 8 None, ToggleClk 6]"
  "nrd (spi_gowin_write t jt) = nrd jt"
  "tdo (spi_gowin_write t jt) = tdo jt"
  by (simp_all add: spi_gowin_write_def)

lemma spi_gowin_read_simps [simp]:
  "fst (spi_gowin_read t jt) = tdo jt (nrd jt) 0"
  "ops (snd (spi_gowin_read t jt)) = ops jt @ [ShiftDR [t] True 8 None, ToggleClk 6]"
  "nrd (snd (spi_gowin_read t jt)) = Suc (nrd jt)"
  "tdo (snd (spi_gowin_read t jt)) = tdo jt"
  by (simp_all add: spi_gowin_read_def shiftDR_rd_def split_beta)












lemma shiftDR_rd_simps [simp]:
  "fst (shiftDR_rd tx bits nx jt) = tdo jt (nrd jt)"
  "ops (snd (shiftDR_rd tx bits nx jt)) = ops jt @ [ShiftDR tx True bits nx]"
  "nrd (snd (shiftDR_rd tx bits nx jt)) = Suc (nrd jt)"
  "tdo (snd (shiftDR_rd tx bits nx jt)) = tdo jt"
  by (simp_all add: shiftDR_rd_def)









lemma legacy_response_steady [simp]: "legacy_response s (steady_device idc 0) n = 0"
proof -
  have "foldl (\<lambda>tmp j. tmp) (0 :: u8) xs = 0" for xs :: "nat list"
    by (induction xs) simp_all
  then show ?thesis
    by (simp add: legacy_response_def steady_device_def)
qed

lemma reverseByte_0 [simp]: "reverseByte 0 = 0"
  unfolding reverseByte_def by (rule bit_word_eqI) (simp add: bit_word_reverse_iff)

lemma gw2a_response_steady [simp]: "gw2a_response (steady_device idc 0) n = 0"
  by (simp add: gw2a_response_def steady_device_def)

lemma all_less_False [simp]: "(\<forall>k<n. False) = (n = (0 :: nat))"
  by auto

subsection \<open>writeSRAM reports the final status read\<close>

lemma status_at_shiftDR_wr [simp]: "status_at (shiftDR_wr tx bits nx jt) = status_at jt"
  by (simp add: status_at_def fun_eq_iff)

lemma writeSRAM_loop_stop: "writeSRAM_loop data 0 ptr jt = jt"
  by (subst writeSRAM_loop.simps) simp

lemma writeSRAM_loop_any:
  "extends_by (\<lambda>e. True) jt0 jt \<Longrightarrow>
   extends_by (\<lambda>e. True) jt0 (writeSRAM_loop data remains ptr jt) \<and>
   nrd (writeSRAM_loop data remains ptr jt) = nrd jt"
proof (induction data remains ptr jt rule: writeSRAM_loop.induct)
  case (1 data remains ptr jt)
  show ?case
  proof (cases "remains = 0")
    case True
    then show ?thesis
      using "1.prems" by (simp add: writeSRAM_loop_stop)
  next
    case False
    define chunk where "chunk = (if remains < pstep then remains else pstep)"
    define nx where "nx = (if remains < pstep then RUN_TEST_IDLE else SHIFT_DR)"
    define jt1 where
      "jt1 = shiftDR_wr (take (nbytes chunk) (drop (nat ptr) data)) chunk (Some nx) jt"
    have step: "writeSRAM_loop data remains ptr jt =
                writeSRAM_loop data (remains - chunk) (ptr + chunk div 8) jt1"
      using False by (subst writeSRAM_loop.simps) (simp add: chunk_def nx_def jt1_def)
    have e: "extends_by (\<lambda>e. True) jt0 jt1"
      using "1.prems" by (simp add: jt1_def shiftDR_wr_def extends_by_emit)
    have "extends_by (\<lambda>e. True) jt0 (writeSRAM_loop data (remains - chunk) (ptr + chunk div 8) jt1) \<and>
          nrd (writeSRAM_loop data (remains - chunk) (ptr + chunk div 8) jt1) = nrd jt1"
      using False e
      by (intro "1.IH" [of "(chunk, nx)" chunk nx jt1]) (simp_all add: chunk_def nx_def jt1_def)
    then show ?thesis
      unfolding step by (simp add: jt1_def)
  qed
qed

lemma writeSRAM_result:
  "fst (writeSRAM s img jt) =
     (status_at jt (nrd jt + (if verbose s then 2 else 0)) AND STATUS_DONE_FINAL \<noteq> 0)"
proof -
  let ?jt0 = "verbose_status s ''before write sram'' (emit (PrintInfo ''Load SRAM '') jt)"
  let ?jt1 = "send_command XFER_WRITE (send_command INIT_ADDR (send_command CONFIG_ENABLE ?jt0))"
  let ?jt2 = "writeSRAM_loop (getData img) (getLength img) 0 ?jt1"
  have "extends_by (\<lambda>e. True) jt ?jt1"
    by (simp add: extends_by_send_command verbose_status_any extends_by_emit)
  then have l: "extends_by (\<lambda>e. True) jt ?jt2" "nrd ?jt2 = nrd ?jt1"
    using writeSRAM_loop_any [of jt ?jt1 "getData img" "getLength img" 0] by simp_all
  have "status_at ?jt2 = status_at jt"
    using l(1) by (rule extends_by_status_at)
  then show ?thesis
    using l(2) by (simp add: writeSRAM_def Let_def split_beta readStatusReg_eq)
qed

subsection \<open>What spi\_wait sends on the shift-register-assisted path\<close>

lemma new_ops_append [simp]: "ops jt' = ops jt @ xs \<Longrightarrow> new_ops jt jt' = xs"
  by (simp add: new_ops_def)







subsection \<open>C8: the result of spi\_wait and the state of the bus\<close>




subsection \<open>The log of eraseFLASH\<close>

lemma erase_trace_simps [simp]:
  "erase_trace [] = []"
  "erase_trace (e # xs) = (if erase_mark e then e # erase_trace xs else erase_trace xs)"
  "erase_trace (xs @ ys) = erase_trace xs @ erase_trace ys"
  by (simp_all add: erase_trace_def)

lemma captures_simps [simp]:
  "captures [] = 0"
  "captures (e # xs) = (if is_capture e then Suc (captures xs) else captures xs)"
  "captures (xs @ ys) = captures xs + captures ys"
  by (simp_all add: captures_def)

lemma pulses_ok_append: "pulses_ok xs \<Longrightarrow> pulses_ok ys \<Longrightarrow> pulses_ok (xs @ ys)"
proof (induction xs)
  case Nil
  then show ?case by simp
next
  case (Cons e xs)
  have "take 2 (xs @ ys) = take 2 xs" if "take 2 xs = [a, b]" for a b :: jtag_op
  proof -
    have "length (take 2 xs) = 2" using that by simp
    then have "2 \<le> length xs" by simp
    then show ?thesis by simp
  qed
  with Cons show ?case by auto
qed

lemma logs_refl [simp]: "logs jt jt [] [] False False"
  by (simp add: logs_def)

lemma logs_frame:
  assumes "logs jt jt' tr vs t m"
  shows "tdo jt' = tdo jt" and "clkfreq jt' = clkfreq jt" and "status_at jt' = status_at jt"
    and "nrd jt \<le> nrd jt'"
  using assms by (auto simp add: logs_def status_at_def fun_eq_iff)

lemma logs_trans:
  assumes "logs jt jt1 tr1 vs1 t1 m1" and "logs jt1 jt2 tr2 vs2 t2 m2"
  shows "logs jt jt2 (tr1 @ tr2) (vs1 @ vs2) (t1 \<or> t2) (m1 \<or> m2)"
proof -
  obtain xs where xs: "ops jt1 = ops jt @ xs" "tdo jt1 = tdo jt" "clkfreq jt1 = clkfreq jt"
    "nrd jt1 = nrd jt + captures xs" "erase_trace xs = tr1" "pulses_ok xs"
    "\<And>ys. attempt_reads (status_at jt) (nrd jt) False (xs @ ys) =
           vs1 @ attempt_reads (status_at jt) (nrd jt + captures xs) False ys"
    "(PrintError ''timeout'' \<in> set xs) = t1" "(PrintInfo ''Erase FLASH '' \<in> set xs) = m1"
    using assms(1) unfolding logs_def by blast
  obtain ys where ys: "ops jt2 = ops jt1 @ ys" "tdo jt2 = tdo jt1" "clkfreq jt2 = clkfreq jt1"
    "nrd jt2 = nrd jt1 + captures ys" "erase_trace ys = tr2" "pulses_ok ys"
    "\<And>zs. attempt_reads (status_at jt1) (nrd jt1) False (ys @ zs) =
           vs2 @ attempt_reads (status_at jt1) (nrd jt1 + captures ys) False zs"
    "(PrintError ''timeout'' \<in> set ys) = t2" "(PrintInfo ''Erase FLASH '' \<in> set ys) = m2"
    using assms(2) unfolding logs_def by blast
  have st: "status_at jt1 = status_at jt"
    using xs(2) by (simp add: status_at_def fun_eq_iff)
  have r: "attempt_reads (status_at jt) (nrd jt) False ((xs @ ys) @ zs) =
           (vs1 @ vs2) @ attempt_reads (status_at jt) (nrd jt + captures (xs @ ys)) False zs" for zs
    using xs(7) [of "ys @ zs"] ys(7) [of zs] by (simp add: st xs(4) add.assoc)
  show ?thesis
    unfolding logs_def
  proof (intro exI [of _ "xs @ ys"] conjI allI)
    show "ops jt2 = ops jt @ xs @ ys" by (simp add: xs ys)
    show "tdo jt2 = tdo jt" by (simp add: xs ys)
    show "clkfreq jt2 = clkfreq jt" by (simp add: xs ys)
    show "nrd jt2 = nrd jt + captures (xs @ ys)" by (simp add: xs ys)
    show "erase_trace (xs @ ys) = tr1 @ tr2" by (simp add: xs ys)
    show "pulses_ok (xs @ ys)" by (rule pulses_ok_append [OF xs(6) ys(6)])
    show "attempt_reads (status_at jt) (nrd jt) False ((xs @ ys) @ zs) =
           (vs1 @ vs2) @ attempt_reads (status_at jt) (nrd jt + captures (xs @ ys)) False zs" for zs
      by (rule r)
    show "(PrintError ''timeout'' \<in> set (xs @ ys)) = (t1 \<or> t2)" using xs(8) ys(8) by auto
    show "(PrintInfo ''Erase FLASH '' \<in> set (xs @ ys)) = (m1 \<or> m2)" using xs(9) ys(9) by auto
  qed
qed



















lemma logs_pulse:
  "logs jt (emit (SetState RUN_TEST_IDLE) (emit (ToggleClk 32) (emit (SetState SHIFT_DR) jt)))
     [SetState SHIFT_DR, SetState RUN_TEST_IDLE] [] False False"
  by (simp add: logs_def)

lemma logs_erase_pulses:
  "logs jt (erase_pulses i nb jt)
     (concat (replicate (nat (nb - i)) [SetState SHIFT_DR, SetState RUN_TEST_IDLE])) []
     False False"
proof (induction "nat (nb - i)" arbitrary: i jt)
  case 0
  then show ?case by (simp add: erase_pulses_stop)
next
  case (Suc n)
  then have lt: "i < nb" and n: "n = nat (nb - (i + 1))" by simp_all
  let ?jt1 = "emit (SetState RUN_TEST_IDLE) (emit (ToggleClk 32) (emit (SetState SHIFT_DR) jt))"
  have s: "nat (nb - i) = Suc (nat (nb - (i + 1)))"
    using lt by simp
  show ?case
    using logs_trans [OF logs_pulse [of jt] Suc.hyps(1) [OF n, of ?jt1]] lt
    by (simp add: erase_pulses_step s)
qed









lemma erase_pulses_clkfreq [simp]: "clkfreq (erase_pulses i nb jt) = clkfreq jt"
  using logs_frame(2) [OF logs_erase_pulses [of jt i nb]] .

lemma erase_pulses_tdo [simp]: "tdo (erase_pulses i nb jt) = tdo jt"
  using logs_frame(1) [OF logs_erase_pulses [of jt i nb]] .


lemma erase_trace_pulses [simp]:
  "erase_trace (concat (replicate n [SetState SHIFT_DR, ToggleClk 32, SetState RUN_TEST_IDLE])) =
     concat (replicate n [SetState SHIFT_DR, SetState RUN_TEST_IDLE])"
  by (induction n) simp_all

lemma attempt_reads_pulses [simp]:
  "attempt_reads f k a
     (concat (replicate n [SetState SHIFT_DR, ToggleClk 32, SetState RUN_TEST_IDLE]) @ ys) =
   attempt_reads f k a ys"
  by (induction n) simp_all

subsection \<open>C3: the retries of eraseFLASH\<close>




end
